theory Spec2Isabelle
  imports Main "HOL-Library.Sublist"
begin

section \<open>The Pub/Sub emulator supervisor\<close>

text \<open>
  A shallow embedding of the emulator supervisor: the \<open>PubSubEmulator\<close> struct, its
  constructor, \<open>Start\<close>, \<open>Stop\<close> and the helpers they call. The struct is a record; the
  operating system the code acts on (directories, subprocesses, the process environment)
  is a second record, the host, that every operation takes and returns. Every external
  action the code attempts is appended to the host's journal together with its outcome, so
  that what was attempted, and in which order, can be read off the final state. Console
  output is not modelled.
\<close>

subsection \<open>Strings\<close>

text \<open>\<open>strings.Contains s substr\<close>: some suffix of \<open>s\<close> starts with \<open>substr\<close>.\<close>

fun Contains :: "string \<Rightarrow> string \<Rightarrow> bool" where
  "Contains [] substr = (substr = [])"
| "Contains (c # cs) substr = (prefix substr (c # cs) \<or> Contains cs substr)"

text \<open>The verb \<open>%d\<close> of \<open>fmt.Sprintf\<close> on an \<open>int\<close>: decimal digits, a minus sign when negative.\<close>

fun digits :: "nat \<Rightarrow> string" where
  "digits n = (if n < 10 then [''0123456789'' ! n] else digits (n div 10) @ [''0123456789'' ! (n mod 10)])"

declare digits.simps [simp del]

definition itoa :: "int \<Rightarrow> string" where
  "itoa i = (if i < 0 then CHR ''-'' # digits (nat (- i)) else digits (nat i))"

subsection \<open>Errors\<close>

text \<open>
  The code builds its errors with \<open>fmt.Errorf\<close>; one constructor stands for each message
  format, carrying the formatted operands.
\<close>

datatype error =
    AlreadyRunning              \<comment> \<open>"emulator already running"\<close>
  | DataDirFailed               \<comment> \<open>"failed to create data directory: ..."\<close>
  | PortInUse int               \<comment> \<open>"emulator failed to start: port %d already in use"\<close>
  | ReadFailed string           \<comment> \<open>"error reading emulator output: ..."\<close>
  | ExitedImmediately string    \<comment> \<open>"emulator process exited immediately: ..."\<close>
  | ExitedUnexpectedly string   \<comment> \<open>"emulator process exited unexpectedly: ..."\<close>
  | StartTimeout                \<comment> \<open>"timeout waiting for emulator to start (...)"\<close>
  | ContextErr                  \<comment> \<open>\<open>ctx.Err()\<close> of the caller's context\<close>

subsection \<open>Channels\<close>

text \<open>
  A channel is nil, or has a capacity and the values buffered in it. \<open>try_send\<close> is the
  send of \<open>select { case ch <- v: default: }\<close> when no receiver is blocked on the channel:
  it succeeds exactly when the buffer has room, and otherwise the value is dropped. A nil
  channel is never ready. \<open>try_recv\<close> takes the oldest buffered value, if there is one.
\<close>

datatype 'a chan = NilChan | Chan nat "'a list"

definition make_chan :: "nat \<Rightarrow> 'a chan" where
  "make_chan n = Chan n []"

fun try_send :: "'a \<Rightarrow> 'a chan \<Rightarrow> 'a chan" where
  "try_send v NilChan = NilChan"
| "try_send v (Chan n vs) = (if length vs < n then Chan n (vs @ [v]) else Chan n vs)"

fun try_recv :: "'a chan \<Rightarrow> 'a option \<times> 'a chan" where
  "try_recv NilChan = (None, NilChan)"
| "try_recv (Chan n []) = (None, Chan n [])"
| "try_recv (Chan n (v # vs)) = (Some v, Chan n vs)"

fun has_room :: "'a chan \<Rightarrow> bool" where
  "has_room NilChan = False"
| "has_room (Chan n vs) = (length vs < n)"

subsection \<open>The instance and the host\<close>

text \<open>
  \<open>exec.Cmd\<close>: the argument vector, and \<open>Process\<close>, nil until the command was started and
  then holding the process id.
\<close>

record command =
  argv :: "string list"
  Process :: "nat option"

text \<open>The struct itself. The mutex is not a field: calls on one instance are sequential here.\<close>

record PubSubEmulator =
  ProjectID :: string
  Port :: int
  DataDir :: string
  hostPort :: string
  cmd :: "command option"
  isRunning :: bool
  errChan :: "error chan"

datatype goos = Windows | Unix

text \<open>The external commands of the teardown, one constructor for each command line.\<close>

datatype tool =
    NetstatTaskkill int   \<comment> \<open>\<open>cmd /c for /f ... netstat -aon ^| findstr :<port> ... taskkill /F /PID\<close>\<close>
  | Lsof int              \<comment> \<open>\<open>lsof -ti :<port>\<close>\<close>
  | KillLsof int          \<comment> \<open>\<open>kill -9 $(lsof -ti :<port>)\<close>\<close>
  | TaskkillImage string  \<comment> \<open>\<open>taskkill /F /IM <image>\<close>\<close>
  | TaskkillTitle string  \<comment> \<open>\<open>taskkill /F /FI WINDOWTITLE eq *<word>*\<close>\<close>
  | PkillF string         \<comment> \<open>\<open>pkill -f <pattern>\<close>\<close>
  | TaskkillTree nat      \<comment> \<open>\<open>taskkill /F /T /PID <pid>\<close>\<close>
  | PkillP nat            \<comment> \<open>\<open>pkill -P <pid>\<close>\<close>

datatype action =
    MkdirAll string
  | StderrPipe
  | StdoutPipe
  | StartProcess "string list"
  | Kill nat
  | Run tool
  | Setenv string string
  | Unsetenv string

text \<open>
  The host: the operating system family, the temporary directory, \<open>filepath.Join\<close> on two
  elements (a function of the standard library, which cleans the result and uses the host's
  separator; the model takes it from the host), the process environment,
  the id the next started process gets, the journal of attempted actions with their
  outcome (\<open>True\<close> for success), and \<open>refuses\<close>, which says for each action whether the
  host makes it fail.
\<close>

record host =
  GOOS :: goos
  TempDir :: string
  Join :: "string \<Rightarrow> string \<Rightarrow> string"
  environ :: "string \<rightharpoonup> string"
  next_pid :: nat
  journal :: "(action \<times> bool) list"
  refuses :: "action \<Rightarrow> bool"

text \<open>Attempting an action journals it and reports whether it succeeded.\<close>

definition attempt :: "action \<Rightarrow> host \<Rightarrow> bool \<times> host" where
  "attempt a h = (\<not> refuses h a, h\<lparr>journal := journal h @ [(a, \<not> refuses h a)]\<rparr>)"

text \<open>An attempt whose error the code discards.\<close>

definition ignoring :: "action \<Rightarrow> host \<Rightarrow> host" where
  "ignoring a h = snd (attempt a h)"

type_synonym state = "PubSubEmulator \<times> host"

text \<open>The constructor; the data directory is \<open>filepath.Join(os.TempDir(), "pubsub-emulator-data")\<close>.\<close>

definition NewPubSubEmulator :: "string \<Rightarrow> int \<Rightarrow> host \<Rightarrow> PubSubEmulator" where
  "NewPubSubEmulator projectID port h =
     \<lparr>ProjectID = projectID, Port = port,
      DataDir = Join h (TempDir h) ''pubsub-emulator-data'',
      hostPort = [], cmd = None, isRunning = False, errChan = make_chan 1\<rparr>"

definition Host :: "PubSubEmulator \<Rightarrow> string" where
  "Host em = hostPort em"

definition IsRunning :: "PubSubEmulator \<Rightarrow> bool" where
  "IsRunning em = isRunning em"

subsection \<open>Shutdown\<close>

text \<open>
  \<open>stopUnlocked\<close> is a guard followed by a straight line of statements. Each statement is
  one function on the state here, and the body is their list, run in order.
\<close>

text \<open>1. Kill the main process if there is still a reference to it.\<close>

definition kill_main :: "state \<Rightarrow> state" where
  "kill_main s =
     (case s of (em, h) \<Rightarrow>
        (case cmd em of
           None \<Rightarrow> s
         | Some c \<Rightarrow> (case Process c of None \<Rightarrow> s | Some pid \<Rightarrow> (em, ignoring (Kill pid) h))))"

text \<open>2. Kill processes by port.\<close>

definition kill_by_port :: "state \<Rightarrow> state" where
  "kill_by_port s =
     (case s of (em, h) \<Rightarrow>
        if GOOS h = Windows then (em, ignoring (Run (NetstatTaskkill (Port em))) h)
        else (em, ignoring (Run (KillLsof (Port em))) (ignoring (Run (Lsof (Port em))) h)))"

text \<open>3. Kill Java processes.\<close>

definition kill_java :: "state \<Rightarrow> state" where
  "kill_java s =
     (case s of (em, h) \<Rightarrow>
        if GOOS h = Windows then (em, ignoring (Run (TaskkillImage ''java.exe'')) h)
        else (em, ignoring (Run (PkillF ''java'')) h))"

text \<open>4. Kill emulator processes.\<close>

definition kill_emulators :: "state \<Rightarrow> state" where
  "kill_emulators s =
     (case s of (em, h) \<Rightarrow>
        if GOOS h = Windows then
          (em, ignoring (Run (TaskkillTitle ''gcloud''))
                 (ignoring (Run (TaskkillTitle ''pubsub''))
                    (ignoring (Run (TaskkillTitle ''emulator'')) h)))
        else
          (em, ignoring (Run (PkillF ''gcloud''))
                 (ignoring (Run (PkillF ''pubsub''))
                    (ignoring (Run (PkillF ''emulator'')) h))))"

text \<open>5. Kill by parent process id if available.\<close>

definition kill_tree :: "state \<Rightarrow> state" where
  "kill_tree s =
     (case s of (em, h) \<Rightarrow>
        (case cmd em of
           None \<Rightarrow> s
         | Some c \<Rightarrow>
             (case Process c of
                None \<Rightarrow> s
              | Some pid \<Rightarrow>
                  if GOOS h = Windows then (em, ignoring (Run (TaskkillTree pid)) h)
                  else (em, ignoring (Run (PkillP pid)) h))))"

text \<open>\<open>os.Unsetenv("PUBSUB_EMULATOR_HOST")\<close>.\<close>

definition unset_endpoint :: "state \<Rightarrow> state" where
  "unset_endpoint s =
     (case s of (em, h) \<Rightarrow>
        (em, h\<lparr>environ := (environ h)(''PUBSUB_EMULATOR_HOST'' := None),
               journal := journal h @ [(Unsetenv ''PUBSUB_EMULATOR_HOST'', True)]\<rparr>))"

text \<open>\<open>em.isRunning = false\<close>.\<close>

definition clear_running :: "state \<Rightarrow> state" where
  "clear_running s = (case s of (em, h) \<Rightarrow> (em\<lparr>isRunning := False\<rparr>, h))"

definition shutdown_body :: "(state \<Rightarrow> state) list" where
  "shutdown_body =
     [kill_main, kill_by_port, kill_java, kill_emulators, kill_tree, unset_endpoint,
      clear_running]"

definition run_steps :: "(state \<Rightarrow> state) list \<Rightarrow> state \<Rightarrow> state" where
  "run_steps fs s = fold (\<lambda>f. f) fs s"

definition stopUnlocked :: "state \<Rightarrow> state" where
  "stopUnlocked s = (if \<not> isRunning (fst s) then s else run_steps shutdown_body s)"

text \<open>\<open>Stop\<close> takes the mutex and calls \<open>stopUnlocked\<close>.\<close>

definition Stop :: "state \<Rightarrow> state" where
  "Stop s = stopUnlocked s"

subsection \<open>The goroutines of a launch\<close>

text \<open>
  \<open>startMonitoring\<close> starts three goroutines: a monitor for each output stream and the
  process watcher. With the coordinator (\<open>waitForEmulator\<close>) they run concurrently; the
  model runs them along a schedule, a list of events in the order in which they happen.
  An event is a step of one goroutine, a timer firing, the caller's context being
  cancelled, or the coordinator reaching the \<open>select\<close> it is about to execute (with the
  order in which it would pick among cases that are ready at that moment; Go picks at
  random).
\<close>

datatype stream = Stderr | Stdout

datatype goroutine = Monitor stream | Watcher

datatype selcase = CaseReady | CaseError | CaseTimer | CaseCtx

datatype event =
    Go goroutine                  \<comment> \<open>the goroutine starts and tests \<open>ctx.Done()\<close>\<close>
  | Line stream string            \<comment> \<open>\<open>scanner.Scan()\<close> yields a line\<close>
  | Closed stream "string option" \<comment> \<open>\<open>scanner.Scan()\<close> yields false; \<open>scanner.Err()\<close>\<close>
  | Exited int string             \<comment> \<open>\<open>cmd.Wait()\<close> returns; \<open>time.Since(startTime)\<close> in ns, the error\<close>
  | Cancel                        \<comment> \<open>the caller's context is cancelled\<close>
  | Timer                         \<comment> \<open>\<open>time.After(3 * time.Second)\<close> fires\<close>
  | Deadline                      \<comment> \<open>the 30 seconds of \<open>timeoutCtx\<close> are over\<close>
  | Enter "selcase list"          \<comment> \<open>the coordinator reaches its \<open>select\<close>\<close>

datatype mstate = Pending | Reading | Returned

datatype wstate =
    WPending
  | Waiting            \<comment> \<open>in \<open>cmd.Wait()\<close>\<close>
  | Sending error      \<comment> \<open>blocked in \<open>errorCh <- ...\<close>, the buffer being full\<close>
  | Locking string     \<comment> \<open>blocked in \<open>em.mutex.Lock()\<close>, which \<open>Start\<close> holds\<close>
  | WReturned

record tasks =
  readyCh :: "unit chan"
  errorCh :: "error chan"
  stderr_mon :: mstate
  stdout_mon :: mstate
  watcher :: wstate
  ctx_done :: bool
  deadline_passed :: bool

text \<open>What ends a \<open>select\<close> of the coordinator: the case that fired, in the source's order.\<close>

datatype wake = Got_ready | Got_error error | Got_timer | Got_ctx

definition Second :: int where
  "Second = 1000000000"

fun mon :: "stream \<Rightarrow> tasks \<Rightarrow> mstate" where
  "mon Stderr t = stderr_mon t"
| "mon Stdout t = stdout_mon t"

fun set_mon :: "stream \<Rightarrow> mstate \<Rightarrow> tasks \<Rightarrow> tasks" where
  "set_mon Stderr m t = t\<lparr>stderr_mon := m\<rparr>"
| "set_mon Stdout m t = t\<lparr>stdout_mon := m\<rparr>"

text \<open>
  The three \<open>go func() { select { case <-ctx.Done(): return; default: ... } }()\<close>: a
  goroutine that finds the context done when it starts returns at once.
\<close>

fun go_start :: "goroutine \<Rightarrow> tasks \<Rightarrow> tasks" where
  "go_start (Monitor st) t =
     (if mon st t = Pending then set_mon st (if ctx_done t then Returned else Reading) t else t)"
| "go_start Watcher t =
     (if watcher t = WPending then t\<lparr>watcher := (if ctx_done t then WReturned else Waiting)\<rparr>
      else t)"

text \<open>
  Sends. \<open>parked\<close> says that the coordinator is blocked in a \<open>select\<close> that receives from
  the channel: then the value is handed to it and the \<open>select\<close> ends. Otherwise a
  non-blocking send succeeds only if the buffer has room.
\<close>

definition offer_ready :: "bool \<Rightarrow> tasks \<Rightarrow> wake option \<times> tasks" where
  "offer_ready parked t =
     (if parked \<and> readyCh t \<noteq> NilChan then (Some Got_ready, t)
      else (None, t\<lparr>readyCh := try_send () (readyCh t)\<rparr>))"

definition offer_error :: "bool \<Rightarrow> error \<Rightarrow> tasks \<Rightarrow> wake option \<times> tasks" where
  "offer_error parked e t =
     (if parked \<and> errorCh t \<noteq> NilChan then (Some (Got_error e), t)
      else (None, t\<lparr>errorCh := try_send e (errorCh t)\<rparr>))"

text \<open>
  One turn of the loop of \<open>monitorOutput\<close>, for the line just scanned. The stderr monitor
  is the one called with \<open>readyCh\<close> and \<open>checkReady = true\<close>; the stdout monitor gets a nil
  channel and \<open>false\<close>. After a bind error the monitor returns.
\<close>

definition monitorOutput_line :: "int \<Rightarrow> stream \<Rightarrow> bool \<Rightarrow> string \<Rightarrow> tasks \<Rightarrow> wake option \<times> tasks" where
  "monitorOutput_line port st parked line t =
     (let r = (if st = Stderr \<and> readyCh t \<noteq> NilChan \<and> Contains line ''Server started''
               then offer_ready parked t else (None, t))
      in if Contains line ''Address already in use'' \<or> Contains line ''BindException'' \<or>
            Contains line ''already in use: bind''
         then (case fst r of
                 Some w \<Rightarrow> (Some w, set_mon st Returned (snd (offer_error False (PortInUse port) (snd r))))
               | None \<Rightarrow>
                   (let r' = offer_error parked (PortInUse port) (snd r)
                    in (fst r', set_mon st Returned (snd r'))))
         else r)"

text \<open>The end of \<open>monitorOutput\<close>: the scanner's error, if any, is offered on \<open>errorCh\<close>.\<close>

definition monitorOutput_end :: "stream \<Rightarrow> bool \<Rightarrow> string option \<Rightarrow> tasks \<Rightarrow> wake option \<times> tasks" where
  "monitorOutput_end st parked err t =
     (case err of
        None \<Rightarrow> (None, set_mon st Returned t)
      | Some e \<Rightarrow>
          (let r = offer_error parked (ReadFailed e) t in (fst r, set_mon st Returned (snd r))))"

text \<open>
  \<open>monitorProcess\<close> once \<open>cmd.Wait()\<close> has returned. An exit measured under three seconds
  is sent on \<open>errorCh\<close> with a blocking send. Otherwise the watcher locks the mutex; while
  \<open>Start\<close> runs, \<open>Start\<close> holds it, so the watcher blocks there.
\<close>

definition monitorProcess_exit :: "bool \<Rightarrow> int \<Rightarrow> string \<Rightarrow> tasks \<Rightarrow> wake option \<times> tasks" where
  "monitorProcess_exit parked elapsed err t =
     (if elapsed < 3 * Second then
        (if parked \<and> errorCh t \<noteq> NilChan
           then (Some (Got_error (ExitedImmediately err)), t\<lparr>watcher := WReturned\<rparr>)
         else if has_room (errorCh t)
           then (None, t\<lparr>errorCh := try_send (ExitedImmediately err) (errorCh t),
                         watcher := WReturned\<rparr>)
         else (None, t\<lparr>watcher := Sending (ExitedImmediately err)\<rparr>))
      else (None, t\<lparr>watcher := Locking err\<rparr>))"

text \<open>The rest of \<open>monitorProcess\<close>, run with the mutex held.\<close>

definition monitorProcess_locked :: "string \<Rightarrow> PubSubEmulator \<Rightarrow> PubSubEmulator" where
  "monitorProcess_locked err em =
     (if isRunning em
      then em\<lparr>isRunning := False, errChan := try_send (ExitedUnexpectedly err) (errChan em)\<rparr>
      else em)"

text \<open>A step of a goroutine.\<close>

fun react :: "int \<Rightarrow> bool \<Rightarrow> event \<Rightarrow> tasks \<Rightarrow> wake option \<times> tasks" where
  "react port parked (Go g) t = (None, go_start g t)"
| "react port parked (Line st l) t =
     (if mon st t = Reading then monitorOutput_line port st parked l t else (None, t))"
| "react port parked (Closed st err) t =
     (if mon st t = Reading then monitorOutput_end st parked err t else (None, t))"
| "react port parked (Exited d err) t =
     (if watcher t = Waiting then monitorProcess_exit parked d err t else (None, t))"
| "react port parked ev t = (None, t)"

text \<open>
  The coordinator receives from \<open>errorCh\<close> without blocking. Taking a value makes room, so
  a watcher blocked in its send completes it.
\<close>

definition recv_error :: "tasks \<Rightarrow> error option \<times> tasks" where
  "recv_error t =
     (case try_recv (errorCh t) of
        (None, ch) \<Rightarrow> (None, t)
      | (Some e, ch) \<Rightarrow>
          (Some e,
           (case watcher t of
              Sending e' \<Rightarrow> t\<lparr>errorCh := try_send e' ch, watcher := WReturned\<rparr>
            | _ \<Rightarrow> t\<lparr>errorCh := ch\<rparr>)))"

datatype phase = Phase1 | Phase2

text \<open>
  Whether a case of the \<open>select\<close> can proceed when the coordinator reaches it. The third
  case is \<open>time.After\<close> in the first \<open>select\<close>, created on entry and so never ready then,
  and \<open>timeoutCtx.Done()\<close> in the second, ready once the deadline has passed or the parent
  context is done.
\<close>

fun ready_case :: "phase \<Rightarrow> tasks \<Rightarrow> selcase \<Rightarrow> bool" where
  "ready_case ph t CaseReady = (fst (try_recv (readyCh t)) \<noteq> None)"
| "ready_case ph t CaseError = (fst (try_recv (errorCh t)) \<noteq> None)"
| "ready_case ph t CaseTimer = (ph = Phase2 \<and> (deadline_passed t \<or> ctx_done t))"
| "ready_case ph t CaseCtx = ctx_done t"

definition poll :: "phase \<Rightarrow> selcase list \<Rightarrow> tasks \<Rightarrow> (wake \<times> tasks) option" where
  "poll ph prefs t =
     (case find (ready_case ph t) (prefs @ [CaseReady, CaseError, CaseTimer, CaseCtx]) of
        None \<Rightarrow> None
      | Some CaseReady \<Rightarrow> Some (Got_ready, t\<lparr>readyCh := snd (try_recv (readyCh t))\<rparr>)
      | Some CaseError \<Rightarrow>
          (case fst (recv_error t) of
             Some e \<Rightarrow> Some (Got_error e, snd (recv_error t))
           | None \<Rightarrow> None)
      | Some CaseTimer \<Rightarrow> Some (Got_timer, t)
      | Some CaseCtx \<Rightarrow> Some (Got_ctx, t))"

text \<open>
  A \<open>select\<close> of \<open>waitForEmulator\<close>, run along the schedule until one of its cases fires.
  Before the coordinator has reached the \<open>select\<close> (\<open>parked\<close> is false) the goroutines'
  sends find no receiver. Both selects end by themselves: the first with its timer, the
  second with the deadline, which is what the end of the schedule stands for. The result
  is the case that fired, the goroutines' state and the rest of the schedule.
\<close>

fun select_wait :: "phase \<Rightarrow> int \<Rightarrow> bool \<Rightarrow> event list \<Rightarrow> tasks \<Rightarrow> wake \<times> tasks \<times> event list" where
  "select_wait ph port parked [] t =
     (if parked then (Got_timer, t, [])
      else (case poll ph [] t of
              Some (w, t') \<Rightarrow> (w, t', [])
            | None \<Rightarrow> (Got_timer, t, [])))"
| "select_wait ph port parked (Enter prefs # evs) t =
     (if parked then select_wait ph port True evs t
      else (case poll ph prefs t of
              Some (w, t') \<Rightarrow> (w, t', evs)
            | None \<Rightarrow> select_wait ph port True evs t))"
| "select_wait ph port parked (Timer # evs) t =
     (if parked \<and> ph = Phase1 then (Got_timer, t, evs) else select_wait ph port parked evs t)"
| "select_wait ph port parked (Deadline # evs) t =
     (if parked \<and> ph = Phase2 then (Got_timer, t\<lparr>deadline_passed := True\<rparr>, evs)
      else select_wait ph port parked evs (t\<lparr>deadline_passed := True\<rparr>))"
| "select_wait ph port parked (Cancel # evs) t =
     (if parked then (Got_ctx, t\<lparr>ctx_done := True\<rparr>, evs)
      else select_wait ph port parked evs (t\<lparr>ctx_done := True\<rparr>))"
| "select_wait ph port parked (ev # evs) t =
     (case react port parked ev t of
        (Some w, t') \<Rightarrow> (w, t', evs)
      | (None, t') \<Rightarrow> select_wait ph port parked evs t')"

subsection \<open>Start\<close>

definition initializeDirectory :: "state \<Rightarrow> error option \<times> state" where
  "initializeDirectory s =
     (case s of (em, h) \<Rightarrow>
        (let r = attempt (MkdirAll (DataDir em)) h
         in if fst r then (None, (em, snd r)) else (Some DataDirFailed, (em, snd r))))"

text \<open>The argument vector that \<open>prepareCommand\<close> gives to \<open>exec.Command\<close>.\<close>

definition gcloud_command :: "PubSubEmulator \<Rightarrow> string list" where
  "gcloud_command em =
     [''gcloud'', ''beta'', ''emulators'', ''pubsub'', ''start'',
      ''--project='' @ ProjectID em,
      ''--host-port='' @ ''localhost:'' @ itoa (Port em),
      ''--data-dir='' @ DataDir em]"

definition prepareCommand :: "state \<Rightarrow> error option \<times> state" where
  "prepareCommand s =
     (case s of (em, h) \<Rightarrow>
        (None,
         (em\<lparr>hostPort := ''localhost:'' @ itoa (Port em),
             cmd := Some \<lparr>argv = gcloud_command em, Process = None\<rparr>\<rparr>, h)))"

text \<open>What \<open>waitForEmulator\<close> gets when \<open>startMonitoring\<close> returns \<open>nil, nil\<close>: no goroutine.\<close>

definition nil_tasks :: tasks where
  "nil_tasks =
     \<lparr>readyCh = NilChan, errorCh = NilChan, stderr_mon = Returned, stdout_mon = Returned,
      watcher = WReturned, ctx_done = False, deadline_passed = False\<rparr>"

text \<open>
  What a successful \<open>startMonitoring\<close> creates: \<open>readyCh := make(chan struct{})\<close>,
  \<open>errorCh := make(chan error, 2)\<close> and the three goroutines, none of which has run yet.
\<close>

definition fresh_tasks :: tasks where
  "fresh_tasks =
     \<lparr>readyCh = make_chan 0, errorCh = make_chan 2, stderr_mon = Pending,
      stdout_mon = Pending, watcher = WPending, ctx_done = False, deadline_passed = False\<rparr>"

text \<open>
  \<open>startMonitoring\<close>. A failure of either pipe or of \<open>cmd.Start()\<close> returns \<open>nil, nil\<close> and
  the error is dropped. \<open>em.cmd\<close> is dereferenced: on a nil \<open>cmd\<close> the call panics, which
  is the result \<open>None\<close>.
\<close>

definition startMonitoring :: "state \<Rightarrow> (tasks \<times> state) option" where
  "startMonitoring s =
     (case s of (em, h) \<Rightarrow>
        (case cmd em of
           None \<Rightarrow> None
         | Some c \<Rightarrow>
             (let r1 = attempt StderrPipe h in
              if \<not> fst r1 then Some (nil_tasks, (em, snd r1)) else
              let r2 = attempt StdoutPipe (snd r1) in
              if \<not> fst r2 then Some (nil_tasks, (em, snd r2)) else
              let r3 = attempt (StartProcess (argv c)) (snd r2); h3 = snd r3 in
              if \<not> fst r3 then Some (nil_tasks, (em, h3)) else
              Some (fresh_tasks,
                    (em\<lparr>cmd := Some (c\<lparr>Process := Some (next_pid h3)\<rparr>)\<rparr>,
                     h3\<lparr>next_pid := Suc (next_pid h3)\<rparr>)))))"

definition set_running :: "state \<Rightarrow> state" where
  "set_running s = (case s of (em, h) \<Rightarrow> (em\<lparr>isRunning := True\<rparr>, h))"

text \<open>
  \<open>waitForEmulator\<close>: the first \<open>select\<close>, the non-blocking receive from \<open>errorCh\<close> in its
  timer case, the second \<open>select\<close>. The result is the error returned (\<open>None\<close> for nil), the
  state, and what is left of the goroutines and of the schedule.
\<close>

definition waitForEmulator ::
    "event list \<Rightarrow> tasks \<Rightarrow> state \<Rightarrow> error option \<times> state \<times> tasks \<times> event list" where
  "waitForEmulator sched t s =
     (case select_wait Phase1 (Port (fst s)) False sched t of
        (Got_ready, t1, r1) \<Rightarrow> (None, set_running s, t1, r1)
      | (Got_error e, t1, r1) \<Rightarrow> (Some e, stopUnlocked s, t1, r1)
      | (Got_timer, t1, r1) \<Rightarrow>
          (case recv_error t1 of
             (Some e, t2) \<Rightarrow> (Some e, stopUnlocked s, t2, r1)
           | (None, t2) \<Rightarrow>
               (case select_wait Phase2 (Port (fst s)) False r1 t2 of
                  (Got_ready, t3, r3) \<Rightarrow> (None, set_running s, t3, r3)
                | (Got_error e, t3, r3) \<Rightarrow> (Some e, stopUnlocked s, t3, r3)
                | (Got_timer, t3, r3) \<Rightarrow> (Some StartTimeout, stopUnlocked s, t3, r3)
                | (Got_ctx, t3, r3) \<Rightarrow> (Some ContextErr, stopUnlocked s, t3, r3)))
      | (Got_ctx, t1, r1) \<Rightarrow> (Some ContextErr, stopUnlocked s, t1, r1))"

definition set_endpoint :: "state \<Rightarrow> state" where
  "set_endpoint s =
     (case s of (em, h) \<Rightarrow>
        (em, h\<lparr>environ := (environ h)(''PUBSUB_EMULATOR_HOST'' \<mapsto> Host em),
               journal := journal h @ [(Setenv ''PUBSUB_EMULATOR_HOST'' (Host em), True)]\<rparr>))"

text \<open>
  \<open>Start\<close>, given the schedule of what happens while it runs. It returns the error
  (\<open>None\<close> for nil), the state, and, when it got as far as \<open>waitForEmulator\<close>, the goroutines
  it leaves behind with the rest of the schedule. \<open>Panicked\<close> stands for the nil dereference
  in \<open>startMonitoring\<close>, which \<open>prepareCommand\<close> rules out.
\<close>

datatype outcome = Returns "error option" | Panicked

definition Start ::
    "event list \<Rightarrow> state \<Rightarrow> outcome \<times> state \<times> (tasks \<times> event list) option" where
  "Start sched s =
     (if isRunning (fst s) then (Returns (Some AlreadyRunning), s, None)
      else (case initializeDirectory s of
              (Some e, s1) \<Rightarrow> (Returns (Some e), s1, None)
            | (None, s1) \<Rightarrow>
                (case prepareCommand s1 of
                   (Some e, s2) \<Rightarrow> (Returns (Some e), s2, None)
                 | (None, s2) \<Rightarrow>
                     (case startMonitoring s2 of
                        None \<Rightarrow> (Panicked, s2, None)
                      | Some (t, s3) \<Rightarrow>
                          (case waitForEmulator sched t s3 of
                             (Some e, s4, bg) \<Rightarrow> (Returns (Some e), s4, Some bg)
                           | (None, s4, bg) \<Rightarrow> (Returns None, set_endpoint s4, Some bg))))))"

text \<open>
  When \<open>Start\<close> returns, its deferred \<open>Unlock\<close> releases the mutex, and a watcher blocked
  in \<open>Lock()\<close> goes on with the rest of \<open>monitorProcess\<close>.
\<close>

definition unlock :: "tasks \<Rightarrow> PubSubEmulator \<Rightarrow> tasks \<times> PubSubEmulator" where
  "unlock t em =
     (case watcher t of
        Locking err \<Rightarrow> (t\<lparr>watcher := WReturned\<rparr>, monitorProcess_locked err em)
      | _ \<Rightarrow> (t, em))"

subsection \<open>Notions used in the statements\<close>

text \<open>
  The process id the teardown can address: \<open>em.cmd != nil && em.cmd.Process != nil\<close>, as a
  list with at most one element.
\<close>

definition handle :: "PubSubEmulator \<Rightarrow> nat list" where
  "handle em =
     (case cmd em of
        None \<Rightarrow> []
      | Some c \<Rightarrow> (case Process c of None \<Rightarrow> [] | Some pid \<Rightarrow> [pid]))"

text \<open>The actions that only \<open>stopUnlocked\<close> performs.\<close>

fun is_teardown :: "action \<Rightarrow> bool" where
  "is_teardown (Kill pid) = True"
| "is_teardown (Run x) = True"
| "is_teardown (Unsetenv k) = True"
| "is_teardown a = False"

definition teardown_actions :: "host \<Rightarrow> action list" where
  "teardown_actions h = filter is_teardown (map fst (journal h))"

definition launches :: "host \<Rightarrow> (action \<times> bool) list" where
  "launches h = filter (\<lambda>p. case fst p of StartProcess args \<Rightarrow> True | _ \<Rightarrow> False) (journal h)"

text \<open>The parts of what \<open>Start\<close> returns.\<close>

definition result_of :: "outcome \<times> state \<times> (tasks \<times> event list) option \<Rightarrow> outcome" where
  "result_of r = fst r"

definition state_of :: "outcome \<times> state \<times> (tasks \<times> event list) option \<Rightarrow> state" where
  "state_of r = fst (snd r)"

definition tasks_of :: "outcome \<times> state \<times> (tasks \<times> event list) option \<Rightarrow> tasks" where
  "tasks_of r = (case snd (snd r) of None \<Rightarrow> nil_tasks | Some bg \<Rightarrow> fst bg)"



text \<open>
  An event that raises no signal: a goroutine starting, a line with none of the markers,
  a clean end of stream, the grace timer, the coordinator reaching a \<open>select\<close>.
\<close>

fun silent :: "event \<Rightarrow> bool" where
  "silent (Go g) = True"
| "silent (Line st l) =
     (\<not> Contains l ''Server started'' \<and> \<not> Contains l ''Address already in use'' \<and>
      \<not> Contains l ''BindException'' \<and> \<not> Contains l ''already in use: bind'')"
| "silent (Closed st err) = (err = None)"
| "silent (Exited d err) = False"
| "silent Cancel = False"
| "silent Timer = True"
| "silent Deadline = False"
| "silent (Enter prefs) = True"

text \<open>The goroutines while nothing has been signalled yet.\<close>

definition quiet :: "tasks \<Rightarrow> bool" where
  "quiet t =
     (readyCh t = Chan 0 [] \<and> errorCh t = Chan 2 [] \<and> \<not> ctx_done t \<and> \<not> deadline_passed t \<and>
      (watcher t = WPending \<or> watcher t = Waiting))"

text \<open>An error is at the head of \<open>errorCh\<close> and nothing else has been raised.\<close>

definition queued :: "error \<Rightarrow> tasks \<Rightarrow> bool" where
  "queued e t =
     ((\<exists>es. errorCh t = Chan 2 (e # es)) \<and> readyCh t = Chan 0 [] \<and> \<not> ctx_done t \<and>
      \<not> deadline_passed t)"

text \<open>The events that are steps of a goroutine.\<close>

fun task_event :: "event \<Rightarrow> bool" where
  "task_event (Go g) = True"
| "task_event (Line st l) = True"
| "task_event (Closed st err) = True"
| "task_event (Exited d err) = True"
| "task_event ev = False"

text \<open>The goroutines of a launch that failed in \<open>startMonitoring\<close>: there are none.\<close>

definition idle :: "tasks \<Rightarrow> bool" where
  "idle t =
     (readyCh t = NilChan \<and> errorCh t = NilChan \<and> stderr_mon t = Returned \<and>
      stdout_mon t = Returned \<and> watcher t = WReturned)"

text \<open>The host refuses nothing that \<open>Start\<close> needs to launch the process.\<close>

definition accepts_launch :: "state \<Rightarrow> bool" where
  "accepts_launch s =
     (case s of (em, h) \<Rightarrow>
        \<not> refuses h (MkdirAll (DataDir em)) \<and> \<not> refuses h StderrPipe \<and>
        \<not> refuses h StdoutPipe \<and> \<not> refuses h (StartProcess (gcloud_command em)))"

text \<open>The state in which \<open>Start\<close> then calls \<open>waitForEmulator\<close>.\<close>

definition launched :: "state \<Rightarrow> state" where
  "launched s =
     (case s of (em, h) \<Rightarrow>
        (em\<lparr>hostPort := ''localhost:'' @ itoa (Port em),
            cmd := Some \<lparr>argv = gcloud_command em, Process = Some (next_pid h)\<rparr>\<rparr>,
         h\<lparr>journal := journal h @
               [(MkdirAll (DataDir em), True), (StderrPipe, True), (StdoutPipe, True),
                (StartProcess (gcloud_command em), True)],
            next_pid := Suc (next_pid h)\<rparr>))"

subsection \<open>Concrete inputs\<close>

definition sample_host :: host where
  "sample_host =
     \<lparr>GOOS = Unix, TempDir = ''/tmp'', Join = (\<lambda>dir name. dir @ ''/'' @ name),
      environ = Map.empty, next_pid = 4242, journal = [],
      refuses = (\<lambda>a. False)\<rparr>"

text \<open>A host on which every action fails.\<close>

definition hostile_host :: host where
  "hostile_host = sample_host\<lparr>refuses := (\<lambda>a. True)\<rparr>"

text \<open>A host on which the \<open>gcloud\<close> executable cannot be started.\<close>

definition no_gcloud_host :: host where
  "no_gcloud_host =
     sample_host\<lparr>refuses := (\<lambda>a. case a of StartProcess args \<Rightarrow> True | _ \<Rightarrow> False)\<rparr>"

definition sample_instance :: PubSubEmulator where
  "sample_instance = NewPubSubEmulator ''test-project'' 8085 sample_host"

definition running_instance :: PubSubEmulator where
  "running_instance =
     sample_instance\<lparr>hostPort := ''localhost:8085'',
                     cmd := Some \<lparr>argv = gcloud_command sample_instance, Process = Some 4242\<rparr>,
                     isRunning := True\<rparr>"

definition ready_line :: string where
  "ready_line = ''[pubsub] INFO: Server started, listening on 8085''"

definition bind_line :: string where
  "bind_line = ''java.net.BindException: Address already in use''"

section \<open>Shutdown\<close>

lemma ignoring_journal: "journal (ignoring a h) = journal h @ [(a, \<not> refuses h a)]"
  by (simp add: ignoring_def attempt_def)

lemma ignoring_fields [simp]:
  "GOOS (ignoring a h) = GOOS h" "refuses (ignoring a h) = refuses h"
  "environ (ignoring a h) = environ h" "next_pid (ignoring a h) = next_pid h"
  "TempDir (ignoring a h) = TempDir h" "Join (ignoring a h) = Join h"
  by (simp_all add: ignoring_def attempt_def)

lemmas step_defs = kill_main_def kill_by_port_def kill_java_def kill_emulators_def
  kill_tree_def unset_endpoint_def clear_running_def

lemma run_steps_Nil [simp]: "run_steps [] s = s"
  by (simp add: run_steps_def)

lemma run_steps_Cons [simp]: "run_steps (f # fs) s = run_steps fs (f s)"
  by (simp add: run_steps_def)

lemma fst_steps [simp]:
  "fst (kill_main s) = fst s" "fst (kill_by_port s) = fst s" "fst (kill_java s) = fst s"
  "fst (kill_emulators s) = fst s" "fst (kill_tree s) = fst s" "fst (unset_endpoint s) = fst s"
  by (auto simp: step_defs split: prod.splits option.splits)

lemma fst_clear_running [simp]: "fst (clear_running s) = (fst s)\<lparr>isRunning := False\<rparr>"
  by (simp add: clear_running_def split: prod.splits)

text \<open>The flag is untouched by every proper prefix of the body.\<close>

lemma take_body:
  assumes "k < 7"
  shows "isRunning (fst (run_steps (take k shutdown_body) s)) = isRunning (fst s)"
proof -
  from assms consider "k = 0" | "k = 1" | "k = 2" | "k = 3" | "k = 4" | "k = 5" | "k = 6"
    by linarith
  then show ?thesis
    by cases (simp_all add: shutdown_body_def)
qed

lemma body_journal:
  "journal (snd (run_steps shutdown_body (em, h))) =
     journal h @
     map (\<lambda>a. (a, \<not> refuses h a))
       (map Kill (handle em) @
        (if GOOS h = Windows
         then [Run (NetstatTaskkill (Port em)), Run (TaskkillImage ''java.exe''),
               Run (TaskkillTitle ''emulator''), Run (TaskkillTitle ''pubsub''),
               Run (TaskkillTitle ''gcloud'')] @ map (\<lambda>p. Run (TaskkillTree p)) (handle em)
         else [Run (Lsof (Port em)), Run (KillLsof (Port em)), Run (PkillF ''java''),
               Run (PkillF ''emulator''), Run (PkillF ''pubsub''), Run (PkillF ''gcloud'')] @
              map (\<lambda>p. Run (PkillP p)) (handle em))) @
     [(Unsetenv ''PUBSUB_EMULATOR_HOST'', True)]"
  by (simp add: shutdown_body_def step_defs handle_def ignoring_journal split: option.splits)

lemma body_environ:
  "environ (snd (run_steps shutdown_body (em, h))) ''PUBSUB_EMULATOR_HOST'' = None"
  by (simp add: shutdown_body_def step_defs split: option.splits)

lemma body_fst: "fst (run_steps shutdown_body s) = (fst s)\<lparr>isRunning := False\<rparr>"
  by (simp add: shutdown_body_def)

lemma stop_not_running: "\<not> isRunning (fst s) \<Longrightarrow> stopUnlocked s = s"
  by (simp add: stopUnlocked_def)

lemma Stop_pow: "isRunning (fst s) \<Longrightarrow> (Stop ^^ Suc n) s = run_steps shutdown_body s"
proof (induction n)
  case 0
  then show ?case by (simp add: Stop_def stopUnlocked_def)
next
  case (Suc n)
  then have "(Stop ^^ Suc (Suc n)) s = Stop (run_steps shutdown_body s)" by simp
  also have "\<dots> = run_steps shutdown_body s"
    by (simp add: Stop_def stop_not_running body_fst)
  finally show ?case .
qed

text \<open>
  Claim C8. On a running instance \<open>stopUnlocked\<close> runs its whole body. Whatever the host
  refuses, the journal grows by exactly the attempts of the six steps, in the source's
  order: the kill of the owned process (when there is a handle), the kill by port, the
  kill of the Java runtime, the kills by emulator-family names, the kill of the process
  tree of the launched process id (when there is a handle), and the removal of
  \<open>PUBSUB_EMULATOR_HOST\<close>. A failed attempt is journalled as failed and the next one is made
  all the same. The running flag is still true after each of the first six statements and
  false at the end.
\<close>

theorem stopUnlocked_runs_six_steps_in_order:
  assumes "isRunning em"
  shows "stopUnlocked (em, h) = run_steps shutdown_body (em, h) \<and>
     journal (snd (stopUnlocked (em, h))) =
       journal h @
       map (\<lambda>a. (a, \<not> refuses h a))
         (map Kill (handle em) @
          (if GOOS h = Windows
           then [Run (NetstatTaskkill (Port em)), Run (TaskkillImage ''java.exe''),
                 Run (TaskkillTitle ''emulator''), Run (TaskkillTitle ''pubsub''),
                 Run (TaskkillTitle ''gcloud'')] @ map (\<lambda>p. Run (TaskkillTree p)) (handle em)
           else [Run (Lsof (Port em)), Run (KillLsof (Port em)), Run (PkillF ''java''),
                 Run (PkillF ''emulator''), Run (PkillF ''pubsub''), Run (PkillF ''gcloud'')] @
                map (\<lambda>p. Run (PkillP p)) (handle em))) @
       [(Unsetenv ''PUBSUB_EMULATOR_HOST'', True)] \<and>
     environ (snd (stopUnlocked (em, h))) ''PUBSUB_EMULATOR_HOST'' = None \<and>
     (\<forall>k<7. isRunning (fst (run_steps (take k shutdown_body) (em, h)))) \<and>
     \<not> isRunning (fst (stopUnlocked (em, h)))"
proof -
  have eq: "stopUnlocked (em, h) = run_steps shutdown_body (em, h)"
    using assms by (simp add: stopUnlocked_def)
  show ?thesis
    using assms by (simp add: eq body_journal body_fst take_body body_environ)
qed

text \<open>The same on a host where every action fails: nine failed attempts, and the flag is cleared.\<close>

theorem stopUnlocked_runs_six_steps_in_order_witness:
  "isRunning running_instance \<and>
   journal (snd (stopUnlocked (running_instance, hostile_host))) =
     [(Kill 4242, False), (Run (Lsof 8085), False), (Run (KillLsof 8085), False),
      (Run (PkillF ''java''), False), (Run (PkillF ''emulator''), False),
      (Run (PkillF ''pubsub''), False), (Run (PkillF ''gcloud''), False),
      (Run (PkillP 4242), False), (Unsetenv ''PUBSUB_EMULATOR_HOST'', True)] \<and>
   isRunning (fst (run_steps (take 6 shutdown_body) (running_instance, hostile_host))) \<and>
   \<not> isRunning (fst (stopUnlocked (running_instance, hostile_host)))"
proof -
  have run: "isRunning running_instance"
    by (simp add: running_instance_def)
  have h: "handle running_instance = [4242]" "Port running_instance = 8085"
    by (simp_all add: running_instance_def sample_instance_def NewPubSubEmulator_def handle_def)
  have host: "GOOS hostile_host = Unix" "journal hostile_host = []"
    "refuses hostile_host = (\<lambda>a. True)"
    by (simp_all add: hostile_host_def sample_host_def)
  note th = stopUnlocked_runs_six_steps_in_order [OF run, of hostile_host]
  from th have "journal (snd (stopUnlocked (running_instance, hostile_host))) =
      journal hostile_host @
      map (\<lambda>a. (a, \<not> refuses hostile_host a))
        (map Kill (handle running_instance) @
         (if GOOS hostile_host = Windows
          then [Run (NetstatTaskkill (Port running_instance)), Run (TaskkillImage ''java.exe''),
                Run (TaskkillTitle ''emulator''), Run (TaskkillTitle ''pubsub''),
                Run (TaskkillTitle ''gcloud'')] @
               map (\<lambda>p. Run (TaskkillTree p)) (handle running_instance)
          else [Run (Lsof (Port running_instance)), Run (KillLsof (Port running_instance)),
                Run (PkillF ''java''), Run (PkillF ''emulator''), Run (PkillF ''pubsub''),
                Run (PkillF ''gcloud'')] @
               map (\<lambda>p. Run (PkillP p)) (handle running_instance))) @
      [(Unsetenv ''PUBSUB_EMULATOR_HOST'', True)]"
    by blast
  then have j: "journal (snd (stopUnlocked (running_instance, hostile_host))) =
     [(Kill 4242, False), (Run (Lsof 8085), False), (Run (KillLsof 8085), False),
      (Run (PkillF ''java''), False), (Run (PkillF ''emulator''), False),
      (Run (PkillF ''pubsub''), False), (Run (PkillF ''gcloud''), False),
      (Run (PkillP 4242), False), (Unsetenv ''PUBSUB_EMULATOR_HOST'', True)]"
    by (simp add: h host)
  from th have "\<forall>k<7. isRunning (fst (run_steps (take k shutdown_body) (running_instance, hostile_host)))"
    by blast
  then have six: "isRunning (fst (run_steps (take 6 shutdown_body) (running_instance, hostile_host)))"
    by simp
  from th have "\<not> isRunning (fst (stopUnlocked (running_instance, hostile_host)))"
    by blast
  with run j six show ?thesis by blast
qed

text \<open>
  Claim C6. \<open>Stop\<close> on an instance fresh from the constructor changes nothing: no action is
  journalled. (\<open>Stop\<close> has no result, so there is no error to return.) On a running instance
  any number \<open>n > 0\<close> of \<open>Stop\<close> calls in sequence leaves the state that one run of the
  shutdown body leaves, and a further call changes nothing.
\<close>

theorem Stop_idempotent:
  "\<not> isRunning (NewPubSubEmulator projectID port h0) \<and>
   Stop (NewPubSubEmulator projectID port h0, h) = (NewPubSubEmulator projectID port h0, h) \<and>
   (isRunning em \<longrightarrow> 0 < n \<longrightarrow>
      (Stop ^^ n) (em, h) = run_steps shutdown_body (em, h) \<and>
      Stop ((Stop ^^ n) (em, h)) = (Stop ^^ n) (em, h))"
proof -
  have fresh: "\<not> isRunning (NewPubSubEmulator projectID port h0)"
    by (simp add: NewPubSubEmulator_def)
  have noop: "Stop (NewPubSubEmulator projectID port h0, h) = (NewPubSubEmulator projectID port h0, h)"
    using fresh by (simp add: Stop_def stop_not_running)
  have many: "(Stop ^^ n) (em, h) = run_steps shutdown_body (em, h) \<and>
      Stop ((Stop ^^ n) (em, h)) = (Stop ^^ n) (em, h)" if run: "isRunning em" and pos: "0 < n"
  proof -
    from pos obtain m where n: "n = Suc m" by (cases n) auto
    have once: "(Stop ^^ n) (em, h) = run_steps shutdown_body (em, h)"
      unfolding n using run by (intro Stop_pow) simp
    have "Stop (run_steps shutdown_body (em, h)) = run_steps shutdown_body (em, h)"
      by (simp add: Stop_def stop_not_running body_fst)
    with once show ?thesis by simp
  qed
  from fresh noop many show ?thesis by blast
qed

text \<open>Three calls in a row on a running instance: one teardown in the journal.\<close>

theorem Stop_idempotent_witness:
  "isRunning running_instance \<and> (0::nat) < 3 \<and>
   Stop (sample_instance, sample_host) = (sample_instance, sample_host) \<and>
   journal (snd ((Stop ^^ 3) (running_instance, sample_host))) =
     [(Kill 4242, True), (Run (Lsof 8085), True), (Run (KillLsof 8085), True),
      (Run (PkillF ''java''), True), (Run (PkillF ''emulator''), True),
      (Run (PkillF ''pubsub''), True), (Run (PkillF ''gcloud''), True),
      (Run (PkillP 4242), True), (Unsetenv ''PUBSUB_EMULATOR_HOST'', True)] \<and>
   Stop ((Stop ^^ 3) (running_instance, sample_host)) = (Stop ^^ 3) (running_instance, sample_host)"
proof -
  have run: "isRunning running_instance"
    by (simp add: running_instance_def)
  have h: "handle running_instance = [4242]" "Port running_instance = 8085"
    by (simp_all add: running_instance_def sample_instance_def NewPubSubEmulator_def handle_def)
  have host: "GOOS sample_host = Unix" "journal sample_host = []"
    "refuses sample_host = (\<lambda>a. False)"
    by (simp_all add: sample_host_def)
  note th = Stop_idempotent [of "''test-project''" 8085 sample_host sample_host
      running_instance 3, folded sample_instance_def]
  from th have fresh: "Stop (sample_instance, sample_host) = (sample_instance, sample_host)"
    by blast
  have pos: "(0::nat) < 3" by simp
  from th run pos have once: "(Stop ^^ 3) (running_instance, sample_host) =
      run_steps shutdown_body (running_instance, sample_host)"
    by blast
  from th run pos have again: "Stop ((Stop ^^ 3) (running_instance, sample_host)) =
      (Stop ^^ 3) (running_instance, sample_host)"
    by blast
  have "journal (snd ((Stop ^^ 3) (running_instance, sample_host))) =
     [(Kill 4242, True), (Run (Lsof 8085), True), (Run (KillLsof 8085), True),
      (Run (PkillF ''java''), True), (Run (PkillF ''emulator''), True),
      (Run (PkillF ''pubsub''), True), (Run (PkillF ''gcloud''), True),
      (Run (PkillP 4242), True), (Unsetenv ''PUBSUB_EMULATOR_HOST'', True)]"
    unfolding once by (simp add: body_journal h host)
  with run pos fresh again show ?thesis by blast
qed

section \<open>Start\<close>

lemmas model_defs =
  Start_def initializeDirectory_def prepareCommand_def startMonitoring_def waitForEmulator_def
  attempt_def Let_def fresh_tasks_def nil_tasks_def make_chan_def poll_def recv_error_def
  monitorOutput_line_def monitorOutput_end_def monitorProcess_exit_def offer_ready_def
  offer_error_def set_running_def set_endpoint_def stopUnlocked_def result_of_def state_of_def
  tasks_of_def Host_def IsRunning_def Second_def

lemmas sample_defs =
  sample_host_def sample_instance_def NewPubSubEmulator_def ready_line_def bind_line_def
  no_gcloud_host_def hostile_host_def running_instance_def

lemma waitForEmulator_state:
  "waitForEmulator sched t s = (r, s', bg) \<Longrightarrow>
     s' = (case r of None \<Rightarrow> set_running s | Some e \<Rightarrow> stopUnlocked s)"
  by (auto simp: waitForEmulator_def split: prod.splits wake.splits option.splits)

lemma startMonitoring_returns:
  "cmd em = Some c \<Longrightarrow> \<exists>t s3. startMonitoring (em, h) = Some (t, s3)"
  by (simp add: startMonitoring_def Let_def)

text \<open>When nothing is refused, \<open>Start\<close> is \<open>waitForEmulator\<close> on the launched state.\<close>

lemma Start_launched:
  assumes "\<not> isRunning (fst s)" and "accepts_launch s"
  shows "Start sched s =
           (case waitForEmulator sched fresh_tasks (launched s) of
              (Some e, s4, bg) \<Rightarrow> (Returns (Some e), s4, Some bg)
            | (None, s4, bg) \<Rightarrow> (Returns None, set_endpoint s4, Some bg))"
  using assms
  by (cases s)
     (simp add: Start_def accepts_launch_def launched_def initializeDirectory_def
       prepareCommand_def startMonitoring_def attempt_def Let_def)

text \<open>
  In general \<open>Start\<close> on an instance that is not running either fails on the data
  directory, or reaches \<open>waitForEmulator\<close> with the flag still false, no teardown action
  journalled, and the goroutines of a launch or none at all.
\<close>

lemma Start_cases:
  assumes "\<not> isRunning (fst s)"
  shows "(refuses (snd s) (MkdirAll (DataDir (fst s))) \<and>
          (\<exists>s1. Start sched s = (Returns (Some DataDirFailed), s1, None) \<and>
             \<not> isRunning (fst s1) \<and> teardown_actions (snd s1) = teardown_actions (snd s))) \<or>
         (\<not> refuses (snd s) (MkdirAll (DataDir (fst s))) \<and>
          (\<exists>s3. \<not> isRunning (fst s3) \<and> teardown_actions (snd s3) = teardown_actions (snd s) \<and>
             Port (fst s3) = Port (fst s) \<and>
             hostPort (fst s3) = ''localhost:'' @ itoa (Port (fst s)) \<and>
             Start sched s =
               (case waitForEmulator sched
                       (if refuses (snd s) StderrPipe \<or> refuses (snd s) StdoutPipe \<or>
                           refuses (snd s) (StartProcess (gcloud_command (fst s)))
                        then nil_tasks else fresh_tasks) s3 of
                  (Some e, s4, bg) \<Rightarrow> (Returns (Some e), s4, Some bg)
                | (None, s4, bg) \<Rightarrow> (Returns None, set_endpoint s4, Some bg))))"
proof (cases s)
  case (Pair em h)
  show ?thesis
  proof (cases "refuses h (MkdirAll (DataDir em))")
    case True
    with assms Pair show ?thesis
      by (simp add: Start_def initializeDirectory_def attempt_def teardown_actions_def)
  next
    case False
    let ?h1 = "h\<lparr>journal := journal h @ [(MkdirAll (DataDir em), True)]\<rparr>"
    let ?em = "em\<lparr>hostPort := ''localhost:'' @ itoa (Port em),
                  cmd := Some \<lparr>argv = gcloud_command em, Process = None\<rparr>\<rparr>"
    let ?t = "if refuses h StderrPipe \<or> refuses h StdoutPipe \<or>
                 refuses h (StartProcess (gcloud_command em))
              then nil_tasks else fresh_tasks"
    have "cmd ?em = Some \<lparr>argv = gcloud_command em, Process = None\<rparr>" by simp
    from startMonitoring_returns [OF this]
    obtain t s3 where sm: "startMonitoring (?em, ?h1) = Some (t, s3)"
      by blast
    have st: "Start sched s =
              (case waitForEmulator sched t s3 of
                 (Some e, s4, bg) \<Rightarrow> (Returns (Some e), s4, Some bg)
               | (None, s4, bg) \<Rightarrow> (Returns None, set_endpoint s4, Some bg))"
      using assms Pair False sm
      by (simp add: Start_def initializeDirectory_def prepareCommand_def attempt_def)
    have props: "\<not> isRunning (fst s3) \<and> teardown_actions (snd s3) = teardown_actions (snd s) \<and>
            Port (fst s3) = Port (fst s) \<and>
            hostPort (fst s3) = ''localhost:'' @ itoa (Port (fst s)) \<and> t = ?t"
      using sm assms Pair
      by (auto simp: startMonitoring_def Let_def attempt_def teardown_actions_def
          split: if_splits)
    from props have t: "t = ?t" by blast
    have "\<not> isRunning (fst s3) \<and> teardown_actions (snd s3) = teardown_actions (snd s) \<and>
             Port (fst s3) = Port (fst s) \<and>
             hostPort (fst s3) = ''localhost:'' @ itoa (Port (fst s)) \<and>
             Start sched s =
               (case waitForEmulator sched
                       (if refuses (snd s) StderrPipe \<or> refuses (snd s) StdoutPipe \<or>
                           refuses (snd s) (StartProcess (gcloud_command (fst s)))
                        then nil_tasks else fresh_tasks) s3 of
                  (Some e, s4, bg) \<Rightarrow> (Returns (Some e), s4, Some bg)
                | (None, s4, bg) \<Rightarrow> (Returns None, set_endpoint s4, Some bg))"
      using props st unfolding t Pair by simp
    then show ?thesis
      using False Pair by (intro disjI2 conjI exI [of _ s3]) simp_all
  qed
qed

lemma teardown_set_endpoint [simp]:
  "teardown_actions (snd (set_endpoint s)) = teardown_actions (snd s)"
  by (simp add: set_endpoint_def teardown_actions_def split: prod.splits)

lemma teardown_set_running [simp]:
  "teardown_actions (snd (set_running s)) = teardown_actions (snd s)"
  by (simp add: set_running_def split: prod.splits)

text \<open>
  Claim C7. \<open>Start\<close> on a running instance returns the error "emulator already running"
  and the instance and the host are as before: flag, host address, command and process
  handle, environment. Nothing is journalled and no goroutine is started.
\<close>

theorem Start_on_running_instance_rejected:
  assumes "isRunning em"
  shows "Start sched (em, h) = (Returns (Some AlreadyRunning), (em, h), None)"
  using assms by (simp add: Start_def)

theorem Start_on_running_instance_rejected_witness:
  "isRunning running_instance \<and>
   Start [Enter [], Go (Monitor Stderr), Line Stderr ready_line] (running_instance, sample_host) =
     (Returns (Some AlreadyRunning), (running_instance, sample_host), None)"
proof -
  have run: "isRunning running_instance"
    by (simp add: running_instance_def)
  from Start_on_running_instance_rejected [OF run] run show ?thesis
    by blast
qed

text \<open>\<open>waitForEmulator\<close> returns nil exactly when one of its two selects received from \<open>readyCh\<close>.\<close>

lemma waitForEmulator_nil_iff:
  "fst (waitForEmulator sched t s) = None \<longleftrightarrow>
     fst (select_wait Phase1 (Port (fst s)) False sched t) = Got_ready \<or>
     (\<exists>t1 r1. select_wait Phase1 (Port (fst s)) False sched t = (Got_timer, t1, r1) \<and>
        fst (recv_error t1) = None \<and>
        fst (select_wait Phase2 (Port (fst s)) False r1 (snd (recv_error t1))) = Got_ready)"
  by (auto simp: waitForEmulator_def split: prod.splits wake.splits option.splits)




text \<open>
  Claim C1. The failure paths of \<open>waitForEmulator\<close> all call \<open>stopUnlocked\<close>, but the flag
  is false whenever they do, since it is set only on the readiness path, and
  \<open>stopUnlocked\<close> returns at its guard. So \<open>Start\<close> on an instance that is not running never
  performs a teardown action, whatever the schedule and the host: the journal holds the
  same kills, external commands and \<open>Unsetenv\<close> after \<open>Start\<close> as before it.
\<close>

theorem Start_performs_no_teardown:
  assumes "\<not> isRunning em"
  shows "teardown_actions (snd (state_of (Start sched (em, h)))) = teardown_actions h"
proof -
  from Start_cases [of "(em, h)" sched] assms
  consider (early) e s1 where "Start sched (em, h) = (Returns (Some e), s1, None)"
      "teardown_actions (snd s1) = teardown_actions h"
    | (wait) t s3 where "\<not> isRunning (fst s3)" "teardown_actions (snd s3) = teardown_actions h"
      "Start sched (em, h) =
              (case waitForEmulator sched t s3 of
                 (Some e, s4, bg) \<Rightarrow> (Returns (Some e), s4, Some bg)
               | (None, s4, bg) \<Rightarrow> (Returns None, set_endpoint s4, Some bg))"
    by auto
  then show ?thesis
  proof cases
    case early
    then show ?thesis by (simp add: state_of_def)
  next
    case wait
    obtain r s4 bg where w: "waitForEmulator sched t s3 = (r, s4, bg)"
      by (cases "waitForEmulator sched t s3")
    from waitForEmulator_state [OF w] wait(1,2)
    have "teardown_actions (snd s4) = teardown_actions h"
      by (cases r) (simp_all add: stop_not_running)
    with wait(3) w show ?thesis
      by (cases r) (simp_all add: state_of_def)
  qed
qed

text \<open>
  The bind error on stderr: \<open>Start\<close> returns the port error, the journal ends with the
  start of the process, and the process handle is still there. The process was not killed.
\<close>

theorem Start_performs_no_teardown_witness:
  "\<not> isRunning sample_instance \<and>
   result_of (Start [Enter [], Go (Monitor Stderr), Line Stderr bind_line]
      (sample_instance, sample_host)) = Returns (Some (PortInUse 8085)) \<and>
   teardown_actions (snd (state_of (Start [Enter [], Go (Monitor Stderr), Line Stderr bind_line]
      (sample_instance, sample_host)))) = [] \<and>
   journal (snd (state_of (Start [Enter [], Go (Monitor Stderr), Line Stderr bind_line]
      (sample_instance, sample_host)))) =
     [(MkdirAll ''/tmp/pubsub-emulator-data'', True), (StderrPipe, True), (StdoutPipe, True),
      (StartProcess (gcloud_command sample_instance), True)] \<and>
   handle (fst (state_of (Start [Enter [], Go (Monitor Stderr), Line Stderr bind_line]
      (sample_instance, sample_host)))) = [4242]"
proof -
  have nr: "\<not> isRunning sample_instance"
    by (simp add: sample_defs)
  have none: "teardown_actions sample_host = []"
    by (simp add: teardown_actions_def sample_defs)
  have res: "result_of (Start [Enter [], Go (Monitor Stderr), Line Stderr bind_line]
      (sample_instance, sample_host)) = Returns (Some (PortInUse 8085))"
    by (simp add: model_defs sample_defs)
  have j: "journal (snd (state_of (Start [Enter [], Go (Monitor Stderr), Line Stderr bind_line]
      (sample_instance, sample_host)))) =
     [(MkdirAll ''/tmp/pubsub-emulator-data'', True), (StderrPipe, True), (StdoutPipe, True),
      (StartProcess (gcloud_command sample_instance), True)]"
    by (simp add: model_defs sample_defs)
  have hd: "handle (fst (state_of (Start [Enter [], Go (Monitor Stderr), Line Stderr bind_line]
      (sample_instance, sample_host)))) = [4242]"
    by (simp add: model_defs sample_defs handle_def)
  from Start_performs_no_teardown [OF nr, of _ sample_host] nr res j hd show ?thesis
    unfolding none by blast
qed


section \<open>A launch that fails in startMonitoring\<close>

lemma react_idle: "idle t \<Longrightarrow> react port parked ev t = (None, t)"
proof (cases ev)
  case (Go g)
  assume "idle t"
  with Go show ?thesis
  proof (cases g)
    case (Monitor st)
    with Go \<open>idle t\<close> show ?thesis by (cases st) (simp_all add: idle_def)
  qed (simp add: idle_def)
next
  case (Line st l)
  assume "idle t"
  with Line show ?thesis by (cases st) (simp_all add: idle_def)
next
  case (Closed st e)
  assume "idle t"
  with Closed show ?thesis by (cases st) (simp_all add: idle_def)
qed (simp_all add: idle_def)

lemma idle_flags [simp]:
  "idle (t\<lparr>ctx_done := b\<rparr>) = idle t" "idle (t\<lparr>deadline_passed := b\<rparr>) = idle t"
  by (simp_all add: idle_def)

lemma poll_idle:
  assumes "idle t"
  shows "poll ph prefs t = None \<or> poll ph prefs t = Some (Got_timer, t) \<or>
         (ctx_done t \<and> poll ph prefs t = Some (Got_ctx, t))"
proof (cases "find (ready_case ph t) (prefs @ [CaseReady, CaseError, CaseTimer, CaseCtx])")
  case None
  then show ?thesis by (simp add: poll_def)
next
  case (Some c)
  then have rc: "ready_case ph t c" by (auto simp: find_Some_iff)
  show ?thesis
  proof (cases c)
    case CaseReady
    with rc assms show ?thesis by (simp add: idle_def)
  next
    case CaseError
    with rc assms show ?thesis by (simp add: idle_def)
  next
    case CaseTimer
    with Some show ?thesis by (simp add: poll_def)
  next
    case CaseCtx
    with Some rc show ?thesis by (simp add: poll_def)
  qed
qed

text \<open>
  With nil channels and no goroutine a select can only end with its timer or with the
  context, and with the context only if it was cancelled.
\<close>

lemma select_idle:
  assumes "idle t"
  shows "\<exists>w t' r. select_wait ph port parked evs t = (w, t', r) \<and> idle t' \<and>
           (w = Got_timer \<or> w = Got_ctx \<and> (ctx_done t \<or> Cancel \<in> set evs)) \<and>
           (ctx_done t' \<longrightarrow> ctx_done t \<or> Cancel \<in> set evs) \<and> set r \<subseteq> set evs"
  using assms
proof (induction evs arbitrary: t parked)
  case Nil
  with poll_idle [OF Nil, of ph "[]"] show ?case by auto
next
  case (Cons ev evs)
  show ?case
  proof (cases "task_event ev")
    case True
    then have "select_wait ph port parked (ev # evs) t = select_wait ph port parked evs t"
      using react_idle [OF Cons.prems, of port parked ev]
      by (cases ev) (simp_all del: react.simps)
    with Cons.IH [OF Cons.prems, of parked] show ?thesis by auto
  next
    case False
    then show ?thesis
    proof (cases ev)
      case (Enter prefs)
      with Cons.IH [OF Cons.prems, of True] poll_idle [OF Cons.prems, of ph prefs] Cons.prems
      show ?thesis by auto
    next
      case Timer
      with Cons.IH [OF Cons.prems, of parked] Cons.prems show ?thesis by auto
    next
      case Deadline
      have "idle (t\<lparr>deadline_passed := True\<rparr>)" using Cons.prems by simp
      from Cons.IH [OF this, of parked] Deadline Cons.prems show ?thesis by auto
    next
      case Cancel
      have "idle (t\<lparr>ctx_done := True\<rparr>)" using Cons.prems by simp
      from Cons.IH [OF this, of parked] Cancel Cons.prems show ?thesis by auto
    qed simp_all
  qed
qed

lemma recv_error_idle: "idle t \<Longrightarrow> recv_error t = (None, t)"
  by (simp add: recv_error_def idle_def)

lemma waitForEmulator_idle:
  assumes "idle t" and "\<not> ctx_done t"
  shows "fst (waitForEmulator sched t s) = Some StartTimeout \<or>
         Cancel \<in> set sched \<and> fst (waitForEmulator sched t s) = Some ContextErr"
proof -
  from select_idle [OF assms(1), of Phase1 "Port (fst s)" False sched]
  obtain w t1 r1 where 1: "select_wait Phase1 (Port (fst s)) False sched t = (w, t1, r1)"
    "idle t1" "w = Got_timer \<or> w = Got_ctx \<and> Cancel \<in> set sched"
    "ctx_done t1 \<longrightarrow> Cancel \<in> set sched" "set r1 \<subseteq> set sched"
    using assms(2) by blast
  from select_idle [OF 1(2), of Phase2 "Port (fst s)" False r1]
  obtain w' t2 r2 where 2: "select_wait Phase2 (Port (fst s)) False r1 t1 = (w', t2, r2)"
    "w' = Got_timer \<or> w' = Got_ctx \<and> (ctx_done t1 \<or> Cancel \<in> set r1)"
    by blast
  from 1 2 show ?thesis
    by (auto simp: waitForEmulator_def recv_error_idle)
qed

text \<open>
  An instance that \<open>Start\<close> has made running holds the handle of the process it started,
  so the teardown of such an instance includes the two steps that need the handle.
\<close>

lemma Start_success_has_handle:
  assumes "result_of (Start sched (em, h)) = Returns None"
  shows "handle (fst (state_of (Start sched (em, h)))) = [next_pid h]"
proof -
  from assms have nr: "\<not> isRunning (fst (em, h))"
    by (auto simp: Start_def result_of_def)
  have acc: "accepts_launch (em, h)"
  proof (rule ccontr)
    assume "\<not> accepts_launch (em, h)"
    then consider "refuses h (MkdirAll (DataDir em))"
      | "\<not> refuses h (MkdirAll (DataDir em))"
        "refuses h StderrPipe \<or> refuses h StdoutPipe \<or>
         refuses h (StartProcess (gcloud_command em))"
      by (auto simp: accepts_launch_def)
    then show False
    proof cases
      case 1
      with Start_cases [OF nr, of sched] assms show False
        by (auto simp: result_of_def)
    next
      case 2
      from Start_cases [OF nr, of sched] 2
      obtain s3 where st: "Start sched (em, h) =
               (case waitForEmulator sched nil_tasks s3 of
                  (Some e, s4, bg) \<Rightarrow> (Returns (Some e), s4, Some bg)
                | (None, s4, bg) \<Rightarrow> (Returns None, set_endpoint s4, Some bg))"
        by auto
      have "idle nil_tasks" "\<not> ctx_done nil_tasks"
        by (simp_all add: idle_def nil_tasks_def)
      from waitForEmulator_idle [OF this, of sched s3] st assms show False
        by (cases "waitForEmulator sched nil_tasks s3") (auto simp: result_of_def)
    qed
  qed
  obtain r s4 bg where w: "waitForEmulator sched fresh_tasks (launched (em, h)) = (r, s4, bg)"
    by (cases "waitForEmulator sched fresh_tasks (launched (em, h))")
  from Start_launched [OF nr acc, of sched] w assms have r: "r = None"
    by (cases r) (simp_all add: result_of_def)
  from waitForEmulator_state [OF w] r have "s4 = set_running (launched (em, h))" by simp
  with Start_launched [OF nr acc, of sched] w r show ?thesis
    by (simp add: state_of_def set_endpoint_def set_running_def launched_def handle_def)
qed

text \<open>
  Claim C2. When the data directory can be made but a pipe cannot be set up or the
  executable cannot be started, \<open>startMonitoring\<close> drops the error and returns nil
  channels; \<open>waitForEmulator\<close> then waits on channels that are never ready. \<open>Start\<close>
  returns the timeout error, after the full budget, or the context's error if the caller
  cancelled meanwhile. It never returns an error that says what went wrong.
\<close>

theorem launch_failure_reported_as_timeout:
  assumes "\<not> isRunning em" and "\<not> refuses h (MkdirAll (DataDir em))"
    and "refuses h StderrPipe \<or> refuses h StdoutPipe \<or>
         refuses h (StartProcess (gcloud_command em))"
  shows "result_of (Start sched (em, h)) = Returns (Some StartTimeout) \<or>
         Cancel \<in> set sched \<and> result_of (Start sched (em, h)) = Returns (Some ContextErr)"
proof -
  have nr: "\<not> isRunning (fst (em, h))" using assms(1) by simp
  from Start_cases [OF nr, of sched] assms(2,3)
  obtain s3 where st: "Start sched (em, h) =
               (case waitForEmulator sched nil_tasks s3 of
                  (Some e, s4, bg) \<Rightarrow> (Returns (Some e), s4, Some bg)
                | (None, s4, bg) \<Rightarrow> (Returns None, set_endpoint s4, Some bg))"
    by auto
  have "idle nil_tasks" "\<not> ctx_done nil_tasks"
    by (simp_all add: idle_def nil_tasks_def)
  from waitForEmulator_idle [OF this, of sched s3] st show ?thesis
    by (cases "waitForEmulator sched nil_tasks s3") (auto simp: result_of_def)
qed

text \<open>No \<open>gcloud\<close> on the host: the timeout error, once the timer and the deadline have fired.\<close>

theorem launch_failure_reported_as_timeout_witness:
  "\<not> isRunning sample_instance \<and>
   \<not> refuses no_gcloud_host (MkdirAll (DataDir sample_instance)) \<and>
   refuses no_gcloud_host (StartProcess (gcloud_command sample_instance)) \<and>
   Cancel \<notin> set [Enter [], Timer, Enter [], Deadline] \<and>
   result_of (Start [Enter [], Timer, Enter [], Deadline] (sample_instance, no_gcloud_host)) =
     Returns (Some StartTimeout)"
proof -
  have nr: "\<not> isRunning sample_instance"
    by (simp add: sample_defs)
  have mk: "\<not> refuses no_gcloud_host (MkdirAll (DataDir sample_instance))"
    by (simp add: sample_defs)
  have sp: "refuses no_gcloud_host (StartProcess (gcloud_command sample_instance))"
    by (simp add: sample_defs)
  have nc: "Cancel \<notin> set [Enter [], Timer, Enter [], Deadline]"
    by simp
  from sp have "refuses no_gcloud_host StderrPipe \<or> refuses no_gcloud_host StdoutPipe \<or>
      refuses no_gcloud_host (StartProcess (gcloud_command sample_instance))"
    by blast
  from launch_failure_reported_as_timeout [OF nr mk this, of "[Enter [], Timer, Enter [], Deadline]"]
    nr mk sp nc
  show ?thesis by blast
qed

text \<open>
  Claim C3. \<open>readyCh\<close> is made with \<open>make(chan struct{})\<close>: it has no slot. The monitor's
  non-blocking send therefore succeeds only while the coordinator is blocked in a
  \<open>select\<close>; at any other moment the value is dropped and a later receive finds nothing.
  When the readiness line is read before the coordinator reaches its first \<open>select\<close>, or
  after the grace timer has ended the first \<open>select\<close> and before the coordinator reaches
  the second, \<open>Start\<close> ends with the timeout error; the same line read while the
  coordinator is blocked in a \<open>select\<close> makes \<open>Start\<close> succeed.
\<close>

theorem readiness_signal_lost_when_coordinator_not_waiting:
  "readyCh fresh_tasks = Chan 0 [] \<and>
   try_send () (readyCh fresh_tasks) = Chan 0 [] \<and>
   fst (try_recv (try_send () (readyCh fresh_tasks))) = None \<and>
   result_of (Start [Go (Monitor Stderr), Line Stderr ready_line, Enter []]
      (sample_instance, sample_host)) = Returns (Some StartTimeout) \<and>
   IsRunning (fst (state_of (Start [Go (Monitor Stderr), Line Stderr ready_line, Enter []]
      (sample_instance, sample_host)))) = False \<and>
   result_of (Start [Enter [], Go (Monitor Stderr), Timer, Line Stderr ready_line, Enter []]
      (sample_instance, sample_host)) = Returns (Some StartTimeout) \<and>
   result_of (Start [Enter [], Go (Monitor Stderr), Line Stderr ready_line]
      (sample_instance, sample_host)) = Returns None"
proof -
  have ch: "readyCh fresh_tasks = Chan 0 []"
    by (simp add: fresh_tasks_def make_chan_def)
  have lost: "result_of (Start [Go (Monitor Stderr), Line Stderr ready_line, Enter []]
      (sample_instance, sample_host)) = Returns (Some StartTimeout)"
    by (simp add: model_defs sample_defs)
  have flag: "IsRunning (fst (state_of (Start [Go (Monitor Stderr), Line Stderr ready_line, Enter []]
      (sample_instance, sample_host)))) = False"
    by (simp add: model_defs sample_defs)
  have kept: "result_of (Start [Enter [], Go (Monitor Stderr), Line Stderr ready_line]
      (sample_instance, sample_host)) = Returns None"
    by (simp add: model_defs sample_defs)
  have gap: "result_of (Start [Enter [], Go (Monitor Stderr), Timer, Line Stderr ready_line, Enter []]
      (sample_instance, sample_host)) = Returns (Some StartTimeout)"
    by (simp add: model_defs sample_defs)
  from ch lost flag gap kept show ?thesis by simp
qed


section \<open>Starting again after a failure\<close>

lemma launches_set_endpoint [simp]: "launches (snd (set_endpoint s)) = launches (snd s)"
  by (simp add: set_endpoint_def launches_def split: prod.splits)

lemma launches_set_running [simp]: "launches (snd (set_running s)) = launches (snd s)"
  by (simp add: set_running_def split: prod.splits)

lemma launches_launched:
  "launches (snd (launched s)) =
     launches (snd s) @ [(StartProcess (gcloud_command (fst s)), True)]"
  by (simp add: launched_def launches_def split: prod.splits)

lemma launched_not_running: "isRunning (fst (launched s)) = isRunning (fst s)"
  by (simp add: launched_def split: prod.splits)

text \<open>After a failed \<open>Start\<close> the flag is false.\<close>

lemma failed_Start_not_running:
  assumes "\<not> isRunning (fst s)" and "result_of (Start sched s) = Returns (Some e)"
  shows "\<not> isRunning (fst (state_of (Start sched s)))"
proof -
  from Start_cases [OF assms(1), of sched]
  consider (early) s1 where "Start sched s = (Returns (Some DataDirFailed), s1, None)"
      "\<not> isRunning (fst s1)"
    | (wait) t s3 where "\<not> isRunning (fst s3)"
      "Start sched s =
              (case waitForEmulator sched t s3 of
                 (Some e, s4, bg) \<Rightarrow> (Returns (Some e), s4, Some bg)
               | (None, s4, bg) \<Rightarrow> (Returns None, set_endpoint s4, Some bg))"
    by blast
  then show ?thesis
  proof cases
    case early
    then show ?thesis by (simp add: state_of_def)
  next
    case wait
    obtain r s4 bg where w: "waitForEmulator sched t s3 = (r, s4, bg)"
      by (cases "waitForEmulator sched t s3")
    from assms(2) wait(2) w obtain e' where r: "r = Some e'"
      by (cases r) (simp_all add: result_of_def)
    from waitForEmulator_state [OF w] r wait(1) have "s4 = s3"
      by (simp add: stop_not_running)
    with wait w r show ?thesis by (simp add: state_of_def)
  qed
qed

text \<open>A \<open>Start\<close> that the host lets launch starts exactly one process.\<close>

lemma Start_launches_once:
  assumes "\<not> isRunning (fst s)" and "accepts_launch s"
  shows "launches (snd (state_of (Start sched s))) =
           launches (snd s) @ [(StartProcess (gcloud_command (fst s)), True)]"
proof -
  obtain r s4 bg where w: "waitForEmulator sched fresh_tasks (launched s) = (r, s4, bg)"
    by (cases "waitForEmulator sched fresh_tasks (launched s)")
  have nr: "\<not> isRunning (fst (launched s))"
    using assms(1) by (simp add: launched_not_running)
  from waitForEmulator_state [OF w] nr
  have "launches (snd s4) = launches (snd (launched s))"
    by (cases r) (simp_all add: stop_not_running)
  with Start_launched [OF assms, of sched] w show ?thesis
    by (cases r) (simp_all add: state_of_def launches_launched)
qed

text \<open>
  Claim C4, as stated, fails. A \<open>Start\<close> that failed on a bind error is followed by a second
  \<open>Start\<close> on the same instance that launches a second process and succeeds.
\<close>

theorem second_Start_after_failure_launches_again:
  "result_of (Start [Enter [], Go (Monitor Stderr), Line Stderr bind_line]
      (sample_instance, sample_host)) = Returns (Some (PortInUse 8085)) \<and>
   result_of (Start [Enter [], Go (Monitor Stderr), Line Stderr ready_line]
      (state_of (Start [Enter [], Go (Monitor Stderr), Line Stderr bind_line]
         (sample_instance, sample_host)))) = Returns None \<and>
   map fst (launches (snd (state_of (Start [Enter [], Go (Monitor Stderr), Line Stderr ready_line]
      (state_of (Start [Enter [], Go (Monitor Stderr), Line Stderr bind_line]
         (sample_instance, sample_host))))))) =
     [StartProcess (gcloud_command sample_instance), StartProcess (gcloud_command sample_instance)] \<and>
   handle (fst (state_of (Start [Enter [], Go (Monitor Stderr), Line Stderr ready_line]
      (state_of (Start [Enter [], Go (Monitor Stderr), Line Stderr bind_line]
         (sample_instance, sample_host)))))) = [4243]"
  by (simp add: model_defs sample_defs launches_def handle_def gcloud_command_def)

text \<open>
  Claim C4, amended. The instance keeps no record of a failed start. A \<open>Start\<close> that returns
  an error on an instance that was not running leaves the flag false, and the next
  \<open>Start\<close> on that instance passes the guard and launches afresh: where the host lets it,
  exactly one more process is started.
\<close>

theorem failed_Start_leaves_instance_startable:
  assumes "\<not> isRunning em" and "result_of (Start sched (em, h)) = Returns (Some e)"
    and "accepts_launch (state_of (Start sched (em, h)))"
  shows "\<not> isRunning (fst (state_of (Start sched (em, h)))) \<and>
         launches (snd (state_of (Start sched2 (state_of (Start sched (em, h)))))) =
           launches (snd (state_of (Start sched (em, h)))) @
           [(StartProcess (gcloud_command (fst (state_of (Start sched (em, h))))), True)]"
proof -
  have "\<not> isRunning (fst (em, h))" using assms(1) by simp
  from failed_Start_not_running [OF this assms(2)]
  have nr: "\<not> isRunning (fst (state_of (Start sched (em, h))))" .
  from nr Start_launches_once [OF nr assms(3), of sched2] show ?thesis
    by blast
qed

theorem failed_Start_leaves_instance_startable_witness:
  "\<not> isRunning sample_instance \<and>
   result_of (Start [Enter [], Go Watcher, Exited (1 * Second) ''exit status 1'']
      (sample_instance, sample_host)) = Returns (Some (ExitedImmediately ''exit status 1'')) \<and>
   accepts_launch (state_of (Start [Enter [], Go Watcher, Exited (1 * Second) ''exit status 1'']
      (sample_instance, sample_host))) \<and>
   \<not> isRunning (fst (state_of (Start [Enter [], Go Watcher, Exited (1 * Second) ''exit status 1'']
      (sample_instance, sample_host)))) \<and>
   length (launches (snd (state_of (Start [Enter [], Go (Monitor Stderr), Line Stderr ready_line]
      (state_of (Start [Enter [], Go Watcher, Exited (1 * Second) ''exit status 1'']
         (sample_instance, sample_host))))))) = 2"
proof -
  let ?s1 = "state_of (Start [Enter [], Go Watcher, Exited (1 * Second) ''exit status 1'']
      (sample_instance, sample_host))"
  have nr: "\<not> isRunning sample_instance"
    by (simp add: sample_defs)
  have res: "result_of (Start [Enter [], Go Watcher, Exited (1 * Second) ''exit status 1'']
      (sample_instance, sample_host)) = Returns (Some (ExitedImmediately ''exit status 1''))"
    by (simp add: model_defs sample_defs)
  have acc: "accepts_launch ?s1"
    by (simp add: model_defs sample_defs accepts_launch_def)
  have one: "length (launches (snd ?s1)) = 1"
    by (simp add: model_defs sample_defs launches_def)
  note th = failed_Start_leaves_instance_startable [OF nr res acc,
      of "[Enter [], Go (Monitor Stderr), Line Stderr ready_line]"]
  from th have nr1: "\<not> isRunning (fst ?s1)" by blast
  from th have "length (launches (snd (state_of
      (Start [Enter [], Go (Monitor Stderr), Line Stderr ready_line] ?s1)))) =
      Suc (length (launches (snd ?s1)))"
    by simp
  with one have two: "length (launches (snd (state_of
      (Start [Enter [], Go (Monitor Stderr), Line Stderr ready_line] ?s1)))) = 2"
    by simp
  from nr res acc nr1 two show ?thesis by blast
qed


section \<open>The process watcher\<close>

lemma set_mon_fields [simp]:
  "readyCh (set_mon st m t) = readyCh t" "errorCh (set_mon st m t) = errorCh t"
  "watcher (set_mon st m t) = watcher t" "ctx_done (set_mon st m t) = ctx_done t"
  "deadline_passed (set_mon st m t) = deadline_passed t"
  by (cases st; simp)+

lemma go_start_fields [simp]:
  "readyCh (go_start g t) = readyCh t" "errorCh (go_start g t) = errorCh t"
  "ctx_done (go_start g t) = ctx_done t" "deadline_passed (go_start g t) = deadline_passed t"
  by (cases g; simp)+

lemma react_silent:
  assumes "quiet t" and "silent ev"
  shows "fst (react port parked ev t) = None \<and> quiet (snd (react port parked ev t)) \<and>
         (watcher t = Waiting \<or> ev = Go Watcher \<longrightarrow> watcher (snd (react port parked ev t)) = Waiting)"
proof (cases ev)
  case (Go g)
  with assms show ?thesis by (cases g) (auto simp: quiet_def)
next
  case (Line st l)
  with assms show ?thesis by (auto simp: quiet_def monitorOutput_line_def)
next
  case (Closed st err)
  with assms show ?thesis by (auto simp: quiet_def monitorOutput_end_def)
qed (use assms in auto)

lemma find_only:
  assumes "\<And>c. P c \<longleftrightarrow> c = a" and "a \<in> set xs"
  shows "find P xs = Some a"
  using assms(2) by (induction xs) (auto simp: assms(1))

lemma find_none: "(\<And>c. \<not> P c) \<Longrightarrow> find P xs = None"
  by (induction xs) auto

lemma poll_quiet: "quiet t \<Longrightarrow> poll ph prefs t = None"
proof -
  assume q: "quiet t"
  have "\<not> ready_case ph t c" for c
    using q by (cases c) (auto simp: quiet_def)
  then have "find (ready_case ph t) (prefs @ [CaseReady, CaseError, CaseTimer, CaseCtx]) = None"
    by (rule find_none)
  then show ?thesis by (simp add: poll_def)
qed

lemma poll_queued: "queued e t \<Longrightarrow> \<exists>t'. poll ph prefs t = Some (Got_error e, t')"
proof -
  assume q: "queued e t"
  have "ready_case ph t c \<longleftrightarrow> c = CaseError" for c
    using q by (cases c) (auto simp: queued_def)
  then have "find (ready_case ph t) (prefs @ [CaseReady, CaseError, CaseTimer, CaseCtx]) = Some CaseError"
    by (intro find_only) auto
  moreover have "fst (recv_error t) = Some e"
    using q by (auto simp: queued_def recv_error_def)
  ultimately show ?thesis by (simp add: poll_def)
qed

lemma try_send_queued: "\<exists>es'. try_send v (Chan 2 (e # es)) = Chan 2 (e # es')"
  by simp

lemma react_unparked:
  assumes "queued e t"
  shows "fst (react port False ev t) = None \<and> queued e (snd (react port False ev t))"
proof (cases ev)
  case (Go g)
  with assms show ?thesis by (cases g) (auto simp: queued_def)
next
  case (Line st l)
  with assms show ?thesis
    by (auto simp: queued_def monitorOutput_line_def offer_ready_def offer_error_def Let_def)
next
  case (Closed st err)
  with assms show ?thesis
    by (auto simp: queued_def monitorOutput_end_def offer_error_def Let_def split: option.splits)
next
  case (Exited d err)
  with assms show ?thesis
    by (auto simp: queued_def monitorProcess_exit_def)
qed (use assms in auto)

lemma queued_wins:
  assumes "queued e t" and "Cancel \<notin> set rest" and "Deadline \<notin> set rest"
  shows "fst (select_wait ph port False rest t) = Got_error e"
  using assms
proof (induction rest arbitrary: t)
  case Nil
  from poll_queued [OF Nil(1)] obtain t' where "poll ph [] t = Some (Got_error e, t')" by blast
  then show ?case by simp
next
  case (Cons ev rest)
  show ?case
  proof (cases ev)
    case (Enter prefs)
    from poll_queued [OF Cons.prems(1)] obtain t' where "poll ph prefs t = Some (Got_error e, t')"
      by blast
    with Enter show ?thesis by simp
  next
    case Timer
    with Cons show ?thesis by simp
  next
    case Cancel
    with Cons.prems show ?thesis by simp
  next
    case Deadline
    with Cons.prems show ?thesis by simp
  next
    case (Go g)
    with Cons react_unparked [OF Cons.prems(1), of port ev] show ?thesis
      by (auto split: prod.splits)
  next
    case (Line st l)
    with Cons react_unparked [OF Cons.prems(1), of port ev] show ?thesis
      by (auto split: prod.splits simp del: react.simps) 
  next
    case (Closed st err)
    with Cons react_unparked [OF Cons.prems(1), of port ev] show ?thesis
      by (auto split: prod.splits simp del: react.simps)
  next
    case (Exited d err)
    with Cons react_unparked [OF Cons.prems(1), of port ev] show ?thesis
      by (auto split: prod.splits simp del: react.simps)
  qed
qed


lemma select_wait_task:
  "task_event ev \<Longrightarrow>
     select_wait ph port parked (ev # evs) t =
       (case fst (react port parked ev t) of
          Some w \<Rightarrow> (w, snd (react port parked ev t), evs)
        | None \<Rightarrow> select_wait ph port parked evs (snd (react port parked ev t)))"
  by (cases ev) (simp_all split: prod.splits option.splits del: react.simps)

lemma exit_now:
  assumes "quiet t" and "watcher t = Waiting" and "d < 3 * Second"
    and "Cancel \<notin> set rest" and "Deadline \<notin> set rest"
  shows "fst (select_wait ph port parked (Exited d err # rest) t) = Got_error (ExitedImmediately err)"
proof (cases parked)
  case True
  with assms show ?thesis by (simp add: monitorProcess_exit_def quiet_def)
next
  case False
  let ?t = "t\<lparr>errorCh := try_send (ExitedImmediately err) (errorCh t), watcher := WReturned\<rparr>"
  have "queued (ExitedImmediately err) ?t"
    using assms(1) by (simp add: queued_def quiet_def)
  from queued_wins [OF this assms(4,5)] False assms(1-3) show ?thesis
    by (simp add: monitorProcess_exit_def quiet_def)
qed

lemma early_exit_phase2:
  assumes "quiet t" and "list_all silent q" and "watcher t = Waiting \<or> Go Watcher \<in> set q"
    and "d < 3 * Second" and "Cancel \<notin> set rest" and "Deadline \<notin> set rest"
  shows "fst (select_wait Phase2 port parked (q @ Exited d err # rest) t) =
           Got_error (ExitedImmediately err)"
  using assms(1-3)
proof (induction q arbitrary: t parked)
  case Nil
  then show ?case using exit_now assms(4-6) by simp
next
  case (Cons ev q)
  from Cons.prems have sil: "silent ev" and rest: "list_all silent q" by simp_all
  note r = react_silent [OF Cons.prems(1) sil, of port parked]
  have w: "watcher (snd (react port parked ev t)) = Waiting \<or> Go Watcher \<in> set q"
    using Cons.prems(3) r by auto
  have step: "fst (select_wait Phase2 port p q' (snd (react port parked ev t))) =
      Got_error (ExitedImmediately err)" if "q' = q @ Exited d err # rest" for p q'
    unfolding that using Cons.IH [OF _ rest w] r by blast
  show ?case
  proof (cases ev)
    case (Enter prefs)
    with Cons.prems(1) step [of _ True] show ?thesis by (simp add: poll_quiet)
  next
    case Timer
    with step [of _ parked] show ?thesis by simp
  next
    case (Go g)
    with r step [of _ parked] show ?thesis by (simp add: select_wait_task del: select_wait.simps react.simps)
  next
    case (Line st l)
    with r step [of _ parked] show ?thesis by (simp add: select_wait_task del: select_wait.simps react.simps)
  next
    case (Closed st e)
    with r step [of _ parked] show ?thesis by (simp add: select_wait_task del: select_wait.simps react.simps)
  qed (use sil in auto)
qed

lemma early_exit_phase1:
  assumes "quiet t" and "list_all silent q" and "watcher t = Waiting \<or> Go Watcher \<in> set q"
    and "d < 3 * Second" and "Cancel \<notin> set rest" and "Deadline \<notin> set rest"
  shows "fst (select_wait Phase1 port parked (q @ Exited d err # rest) t) =
           Got_error (ExitedImmediately err) \<or>
         (\<exists>t1 q1. select_wait Phase1 port parked (q @ Exited d err # rest) t =
                     (Got_timer, t1, q1 @ Exited d err # rest) \<and>
                   quiet t1 \<and> list_all silent q1 \<and> (watcher t1 = Waiting \<or> Go Watcher \<in> set q1))"
  using assms(1-3)
proof (induction q arbitrary: t parked)
  case Nil
  then show ?case using exit_now assms(4-6) by simp
next
  case (Cons ev q)
  from Cons.prems have sil: "silent ev" and rest: "list_all silent q" by simp_all
  note r = react_silent [OF Cons.prems(1) sil, of port parked]
  have w: "watcher (snd (react port parked ev t)) = Waiting \<or> Go Watcher \<in> set q"
    using Cons.prems(3) r by auto
  note step = Cons.IH [OF _ rest w]
  show ?case
  proof (cases ev)
    case (Enter prefs)
    with Cons.prems(1) r step [of True] show ?thesis by (simp add: poll_quiet)
  next
    case Timer
    show ?thesis
    proof (cases parked)
      case True
      with Timer Cons.prems rest show ?thesis by auto
    next
      case False
      with Timer r step [of False] show ?thesis by simp
    qed
  next
    case (Go g)
    with r step [of parked] show ?thesis by (simp add: select_wait_task del: select_wait.simps react.simps)
  next
    case (Line st l)
    with r step [of parked] show ?thesis by (simp add: select_wait_task del: select_wait.simps react.simps)
  next
    case (Closed st e)
    with r step [of parked] show ?thesis by (simp add: select_wait_task del: select_wait.simps react.simps)
  qed (use sil in auto)
qed

lemma waitForEmulator_early_exit:
  assumes "quiet t" and "list_all silent q" and "watcher t = Waiting \<or> Go Watcher \<in> set q"
    and "d < 3 * Second" and "Cancel \<notin> set rest" and "Deadline \<notin> set rest"
  shows "fst (waitForEmulator (q @ Exited d err # rest) t s) = Some (ExitedImmediately err)"
proof -
  from early_exit_phase1 [OF assms, of "Port (fst s)" False err]
  consider
    (now) "fst (select_wait Phase1 (Port (fst s)) False (q @ Exited d err # rest) t) =
           Got_error (ExitedImmediately err)"
  | (later) t1 q1 where "select_wait Phase1 (Port (fst s)) False (q @ Exited d err # rest) t =
                     (Got_timer, t1, q1 @ Exited d err # rest)" "quiet t1" "list_all silent q1"
       "watcher t1 = Waiting \<or> Go Watcher \<in> set q1"
    by blast
  then show ?thesis
  proof cases
    case now
    then show ?thesis by (auto simp: waitForEmulator_def split: prod.splits)
  next
    case later
    have none: "recv_error t1 = (None, t1)"
      using later(2) by (simp add: recv_error_def quiet_def)
    from early_exit_phase2 [OF later(2-4) assms(4-6), of "Port (fst s)" False err]
    show ?thesis
      by (auto simp: waitForEmulator_def later(1) none split: prod.splits)
  qed
qed

text \<open>
  Claim C9, as stated, fails. The emulator prints the bind error and exits one second
  after launch, without ever being ready: the monitor's error is received first and
  \<open>Start\<close> returns the port error, not the early exit.
\<close>

theorem early_exit_after_bind_error_returns_port_error:
  "result_of (Start [Enter [], Go (Monitor Stderr), Go Watcher, Line Stderr bind_line,
        Exited (1 * Second) ''exit status 1''] (sample_instance, sample_host)) =
     Returns (Some (PortInUse 8085)) \<and>
   result_of (Start [Enter [], Go (Monitor Stderr), Go Watcher, Line Stderr bind_line,
        Exited (1 * Second) ''exit status 1''] (sample_instance, sample_host)) \<noteq>
     Returns (Some (ExitedImmediately ''exit status 1''))"
  by (simp add: model_defs sample_defs)

text \<open>
  Claim C9, amended. The watcher measures the time from its own start to the return of
  \<open>cmd.Wait()\<close>. When that is under three seconds it sends "exited immediately" on the
  startup error channel. If no other signal was raised before (no marker line, no read
  error, no cancellation, no deadline) and neither the context nor the deadline comes
  before the coordinator takes the error, \<open>Start\<close> returns that error, and not the timeout:
  whether the coordinator is already blocked in its first select, between the two
  selects, or blocked in the second.
\<close>

theorem early_exit_returned_when_first_signal:
  assumes "\<not> isRunning em" and "accepts_launch (em, h)"
    and "list_all silent q" and "Go Watcher \<in> set q" and "d < 3 * Second"
    and "Cancel \<notin> set rest" and "Deadline \<notin> set rest"
  shows "result_of (Start (q @ Exited d err # rest) (em, h)) =
           Returns (Some (ExitedImmediately err))"
proof -
  have nr: "\<not> isRunning (fst (em, h))" using assms(1) by simp
  have q: "quiet fresh_tasks"
    by (simp add: quiet_def fresh_tasks_def make_chan_def)
  have w: "watcher fresh_tasks = Waiting \<or> Go Watcher \<in> set q"
    using assms(4) by simp
  from waitForEmulator_early_exit [OF q assms(3) w assms(5-7), of err "launched (em, h)"]
    Start_launched [OF nr assms(2), of "q @ Exited d err # rest"]
  show ?thesis
    by (cases "waitForEmulator (q @ Exited d err # rest) fresh_tasks (launched (em, h))")
       (simp add: result_of_def)
qed

text \<open>
  The process exits after one second, the grace timer having fired already in the
  schedule's order; the coordinator has not reached its second select yet.
\<close>

theorem early_exit_returned_when_first_signal_witness:
  "\<not> isRunning sample_instance \<and> accepts_launch (sample_instance, sample_host) \<and>
   list_all silent [Enter [], Go (Monitor Stderr), Go Watcher, Line Stderr ''Starting'', Timer] \<and>
   Go Watcher \<in> set [Enter [], Go (Monitor Stderr), Go Watcher, Line Stderr ''Starting'', Timer] \<and>
   1 * Second < 3 * Second \<and> Cancel \<notin> set [Enter [CaseCtx]] \<and> Deadline \<notin> set [Enter [CaseCtx]] \<and>
   result_of (Start ([Enter [], Go (Monitor Stderr), Go Watcher, Line Stderr ''Starting'', Timer] @
        Exited (1 * Second) ''exit status 1'' # [Enter [CaseCtx]])
      (sample_instance, sample_host)) = Returns (Some (ExitedImmediately ''exit status 1''))"
proof -
  have nr: "\<not> isRunning sample_instance"
    by (simp add: sample_defs)
  have acc: "accepts_launch (sample_instance, sample_host)"
    by (simp add: accepts_launch_def sample_defs)
  have sil: "list_all silent [Enter [], Go (Monitor Stderr), Go Watcher, Line Stderr ''Starting'', Timer]"
    by simp
  have go: "Go Watcher \<in> set [Enter [], Go (Monitor Stderr), Go Watcher, Line Stderr ''Starting'', Timer]"
    by simp
  have d: "1 * Second < 3 * Second"
    by (simp add: Second_def)
  have nc: "Cancel \<notin> set [Enter [CaseCtx]]" and nd: "Deadline \<notin> set [Enter [CaseCtx]]"
    by simp_all
  from early_exit_returned_when_first_signal [OF nr acc sil go d nc nd] nr acc sil go d nc nd
  show ?thesis by blast
qed

text \<open>
  Claim C10, as stated, fails. The process exits four seconds after launch, while \<open>Start\<close>
  is still waiting and the flag is false. The watcher waits for the mutex. The readiness
  line, already scanned, then reaches the coordinator, \<open>Start\<close> succeeds and sets the flag.
  When \<open>Start\<close> releases the mutex the watcher finds the flag true, clears it and delivers
  "exited unexpectedly" on the fault channel.
\<close>

theorem late_exit_before_readiness_faults_after_Start:
  "result_of (Start [Enter [], Go (Monitor Stderr), Go Watcher, Timer, Enter [],
        Exited (4 * Second) ''signal: killed'', Line Stderr ready_line]
      (sample_instance, sample_host)) = Returns None \<and>
   isRunning (fst (state_of (Start [Enter [], Go (Monitor Stderr), Go Watcher, Timer, Enter [],
        Exited (4 * Second) ''signal: killed'', Line Stderr ready_line]
      (sample_instance, sample_host)))) \<and>
   watcher (tasks_of (Start [Enter [], Go (Monitor Stderr), Go Watcher, Timer, Enter [],
        Exited (4 * Second) ''signal: killed'', Line Stderr ready_line]
      (sample_instance, sample_host))) = Locking ''signal: killed'' \<and>
   errChan (snd (unlock
      (tasks_of (Start [Enter [], Go (Monitor Stderr), Go Watcher, Timer, Enter [],
        Exited (4 * Second) ''signal: killed'', Line Stderr ready_line]
        (sample_instance, sample_host)))
      (fst (state_of (Start [Enter [], Go (Monitor Stderr), Go Watcher, Timer, Enter [],
        Exited (4 * Second) ''signal: killed'', Line Stderr ready_line]
        (sample_instance, sample_host)))))) =
     Chan 1 [ExitedUnexpectedly ''signal: killed''] \<and>
   isRunning (snd (unlock
      (tasks_of (Start [Enter [], Go (Monitor Stderr), Go Watcher, Timer, Enter [],
        Exited (4 * Second) ''signal: killed'', Line Stderr ready_line]
        (sample_instance, sample_host)))
      (fst (state_of (Start [Enter [], Go (Monitor Stderr), Go Watcher, Timer, Enter [],
        Exited (4 * Second) ''signal: killed'', Line Stderr ready_line]
        (sample_instance, sample_host)))))) = False"
  by (simp add: model_defs sample_defs unlock_def monitorProcess_locked_def)

text \<open>
  Claim C10, amended. For an exit that the watcher measures at three seconds or more, the
  watcher sends nothing on the startup channels and ends no select: the coordinator goes
  on with the rest of the schedule, so the startup resolves by another signal, the timeout
  or cancellation. The watcher then takes the mutex. With the mutex held it reads the
  flag: if the flag is false it delivers nothing on any channel and changes nothing; if
  the flag is true, as it is when a \<open>Start\<close> in flight has succeeded in the meantime, it
  clears the flag and offers "exited unexpectedly" on the fault channel.
\<close>

theorem late_exit_signals_only_under_lock:
  assumes "3 * Second \<le> d"
  shows "fst (react port parked (Exited d err) t) = None \<and>
         readyCh (snd (react port parked (Exited d err) t)) = readyCh t \<and>
         errorCh (snd (react port parked (Exited d err) t)) = errorCh t \<and>
         select_wait ph port parked (Exited d err # evs) t =
           select_wait ph port parked evs
             (if watcher t = Waiting then t\<lparr>watcher := Locking err\<rparr> else t) \<and>
         unlock (t\<lparr>watcher := Locking err\<rparr>) em =
           (t\<lparr>watcher := WReturned\<rparr>,
            if isRunning em
            then em\<lparr>isRunning := False,
                    errChan := try_send (ExitedUnexpectedly err) (errChan em)\<rparr>
            else em)"
  using assms by (simp add: monitorProcess_exit_def unlock_def monitorProcess_locked_def)

theorem late_exit_signals_only_under_lock_witness:
  "3 * Second \<le> 4 * Second \<and>
   select_wait Phase2 8085 True [Exited (4 * Second) ''signal: killed'', Deadline]
       (fresh_tasks\<lparr>watcher := Waiting\<rparr>) =
     (Got_timer, fresh_tasks\<lparr>watcher := Locking ''signal: killed'', deadline_passed := True\<rparr>, []) \<and>
   unlock (fresh_tasks\<lparr>watcher := Locking ''signal: killed''\<rparr>) sample_instance =
     (fresh_tasks\<lparr>watcher := WReturned\<rparr>, sample_instance)"
proof -
  have d: "3 * Second \<le> 4 * Second"
    by (simp add: Second_def)
  have nr: "\<not> isRunning sample_instance"
    by (simp add: sample_defs)
  note th = late_exit_signals_only_under_lock [OF d, of 8085 True "''signal: killed''"
      "fresh_tasks\<lparr>watcher := Waiting\<rparr>" Phase2 "[Deadline]" sample_instance]
  from th have "select_wait Phase2 8085 True [Exited (4 * Second) ''signal: killed'', Deadline]
       (fresh_tasks\<lparr>watcher := Waiting\<rparr>) =
     select_wait Phase2 8085 True [Deadline] (fresh_tasks\<lparr>watcher := Locking ''signal: killed''\<rparr>)"
    by simp
  then have sel: "select_wait Phase2 8085 True [Exited (4 * Second) ''signal: killed'', Deadline]
       (fresh_tasks\<lparr>watcher := Waiting\<rparr>) =
     (Got_timer, fresh_tasks\<lparr>watcher := Locking ''signal: killed'', deadline_passed := True\<rparr>, [])"
    by simp
  from th nr have "unlock (fresh_tasks\<lparr>watcher := Locking ''signal: killed''\<rparr>) sample_instance =
     (fresh_tasks\<lparr>watcher := WReturned\<rparr>, sample_instance)"
    by simp
  with d sel show ?thesis by blast
qed


end
